theory Spec2Isabelle
  imports Complex_Main "HOL-Library.Word" "HOL-Library.Sublist"
begin

text \<open>
  The content script and the service worker of the Letta browser extension: the marker
  protocol that splices memory blocks into the editor of a chat page and strips them
  again, the lookup of the editor and the send button, the mounting of the control and
  its recovery, the capture of sent messages and their rate-limited hand-over to the
  remote service. The definitions follow the TypeScript sources function by function;
  the facts about them come after all definitions.
\<close>

section \<open>JavaScript strings\<close>

text \<open>
  A JavaScript string is a sequence of UTF-16 code units; \<open>length\<close>, \<open>indexOf\<close>,
  \<open>substring\<close> and \<open>slice\<close> all count code units. \<open>js\<close> turns an ASCII literal
  into such a sequence.
\<close>

type_synonym jsstring = "16 word list"

definition js :: "string \<Rightarrow> jsstring" where
  "js s = map of_char s"

text \<open>\<open>s.indexOf(p)\<close>: the least index at which \<open>p\<close> occurs in \<open>s\<close>, or \<open>-1\<close>.\<close>

fun indexOf :: "'a list \<Rightarrow> 'a list \<Rightarrow> int" where
  "indexOf [] p = (if p = [] then 0 else - 1)"
| "indexOf (c # cs) p =
     (if prefix p (c # cs) then 0
      else (let r = indexOf cs p in if r = - 1 then - 1 else r + 1))"

text \<open>\<open>s.includes(p)\<close>.\<close>

definition js_includes :: "'a list \<Rightarrow> 'a list \<Rightarrow> bool" where
  "js_includes s p = (indexOf s p \<noteq> - 1)"

text \<open>
  \<open>s.substring(a, b)\<close>: both arguments are clamped to \<open>[0, length]\<close> and swapped when
  \<open>a > b\<close>; \<open>s.substring(a)\<close> runs to the end.
\<close>

definition substring :: "'a list \<Rightarrow> int \<Rightarrow> int \<Rightarrow> 'a list" where
  "substring s a b =
     (let n = int (length s);
          a' = max 0 (min a n);
          b' = max 0 (min b n)
      in take (nat (max a' b' - min a' b')) (drop (nat (min a' b')) s))"

definition substring_from :: "'a list \<Rightarrow> int \<Rightarrow> 'a list" where
  "substring_from s a = substring s a (int (length s))"

text \<open>
  \<open>s.slice(a, b)\<close> (strings and arrays): a negative argument counts from the end;
  \<open>s.slice(a)\<close> runs to the end.
\<close>

definition slice :: "'a list \<Rightarrow> int \<Rightarrow> int \<Rightarrow> 'a list" where
  "slice s a b =
     (let n = int (length s);
          k = (if a < 0 then max (n + a) 0 else min a n);
          e = (if b < 0 then max (n + b) 0 else min b n)
      in take (nat (e - k)) (drop (nat k) s))"

definition slice_from :: "'a list \<Rightarrow> int \<Rightarrow> 'a list" where
  "slice_from s a = slice s a (int (length s))"

text \<open>
  \<open>s.trim()\<close> removes the code units of ECMAScript's WhiteSpace and LineTerminator
  productions from both ends.
\<close>

definition isWhiteSpace :: "16 word \<Rightarrow> bool" where
  "isWhiteSpace c \<longleftrightarrow>
     c = 0x0009 \<or> c = 0x000A \<or> c = 0x000B \<or> c = 0x000C \<or> c = 0x000D \<or> c = 0x0020 \<or>
     c = 0x00A0 \<or> c = 0x1680 \<or> (0x2000 \<le> c \<and> c \<le> 0x200A) \<or> c = 0x2028 \<or>
     c = 0x2029 \<or> c = 0x202F \<or> c = 0x205F \<or> c = 0x3000 \<or> c = 0xFEFF"

definition trim :: "jsstring \<Rightarrow> jsstring" where
  "trim s = rev (dropWhile isWhiteSpace (rev (dropWhile isWhiteSpace s)))"

text \<open>
  \<open>s.toLowerCase()\<close>, on the ASCII letters only: it is applied to tag names, which are
  ASCII.
\<close>

definition toLowerCase :: "jsstring \<Rightarrow> jsstring" where
  "toLowerCase s = map (\<lambda>c. if 0x41 \<le> c \<and> c \<le> 0x5A then c + 0x20 else c) s"

text \<open>\<open>s.split(sep)\<close> for a separator of one code unit, and \<open>lines.join(sep)\<close>.\<close>

fun split_on :: "'a \<Rightarrow> 'a list \<Rightarrow> 'a list list" where
  "split_on sep [] = [[]]"
| "split_on sep (c # cs) =
     (if c = sep then [] # split_on sep cs
      else (case split_on sep cs of [] \<Rightarrow> [[c]] | l # ls \<Rightarrow> (c # l) # ls))"

fun join :: "'a list \<Rightarrow> 'a list list \<Rightarrow> 'a list" where
  "join sep [] = []"
| "join sep [l] = l"
| "join sep (l # ls) = l @ sep @ join sep ls"

section \<open>constants.ts\<close>

definition MEMORY_HEADER :: jsstring where
  "MEMORY_HEADER = js ''=== RELEVANT MEMORIES FROM LETTA ===''"

definition MEMORY_FOOTER :: jsstring where
  "MEMORY_FOOTER = js ''=== END MEMORIES ===''"

section \<open>The page as the content script sees it\<close>

text \<open>
  The host page is not part of the repository. It is modelled by what the script can
  observe of it: the address, the answer of \<open>document.querySelector\<close> to each selector
  (an element, \<open>null\<close>, or a thrown \<open>SyntaxError\<close> for a selector the browser rejects)
  and the properties of each element that the script reads. Elements are identified by a
  reference.
\<close>

type_synonym ref = nat

datatype query = SyntaxError | Result "ref option"

text \<open>
  The content of an element is a list of child nodes, as the script writes it:
  \<open>Br\<close> is \<open><p><br></p>\<close>, \<open>Txt t\<close> is \<open><p>t</p>\<close>, and \<open>Raw t\<close> is a text
  node with the text \<open>t\<close>.
\<close>

datatype para = Br | Txt jsstring | Raw jsstring

record element =
  tagName :: jsstring
  classList :: "jsstring list"
  contentEditable :: jsstring
  attr_contenteditable :: "jsstring option"
  el_value :: jsstring
  dirtyValue :: bool
  textContent :: jsstring
  innerText :: jsstring
  rect_width :: real
  rect_height :: real
  style_display :: jsstring
  style_visibility :: jsstring
  ancestors :: "ref list"
  position :: nat
  dataset_lettaListener :: bool
  dataset_lettaKeyListener :: bool
  onClick_handleSend :: bool
  onKeydown_handleKeydown :: bool

text \<open>
  \<open>ancestors\<close> is the chain of \<open>parentElement\<close>s of an element, the parent first;
  \<open>position\<close> is the index of the element in document order. \<open>el_value\<close> is what the
  \<open>value\<close> getter returns; \<open>dirtyValue\<close> is the dirty value flag of a \<open>textarea\<close>,
  set when its value is written by the user or through the \<open>value\<close> setter. Until it
  is set, the value of a \<open>textarea\<close> follows the text nodes among its children.
\<close>

text \<open>
  The \<open>value\<close> getter of a \<open>textarea\<close> and the HTML parser both turn every CR LF
  pair and every other CR into LF.
\<close>

fun normalizeNewlines :: "jsstring \<Rightarrow> jsstring" where
  "normalizeNewlines (c # d # cs) =
     (if c = 0x0D \<and> d = 0x0A then 0x0A # normalizeNewlines cs
      else if c = 0x0D then 0x0A # normalizeNewlines (d # cs)
      else c # normalizeNewlines (d # cs))"
| "normalizeNewlines [c] = [if c = 0x0D then 0x0A else c]"
| "normalizeNewlines [] = []"

text \<open>
  The text that the HTML parser makes of the characters of a line written between
  \<open><p>\<close> and \<open></p>\<close> with \<open>&\<close>, \<open><\<close> and \<open>>\<close> escaped: the escapes are undone,
  and a NUL is dropped inside an element (\<open>parsedText\<close>) and replaced by U+FFFD inside
  a \<open>textarea\<close>, whose content is parsed as text without tags (\<open>rcdataText\<close>).
\<close>

definition parsedText :: "jsstring \<Rightarrow> jsstring" where
  "parsedText t = filter (\<lambda>c. c \<noteq> 0) (normalizeNewlines t)"

definition rcdataText :: "jsstring \<Rightarrow> jsstring" where
  "rcdataText t = map (\<lambda>c. if c = 0 then 0xFFFD else c) (normalizeNewlines t)"

definition parentElement :: "element \<Rightarrow> ref option" where
  "parentElement el = (case ancestors el of [] \<Rightarrow> None | p # _ \<Rightarrow> Some p)"

text \<open>
  The nodes that the script itself creates: \<open>createLettaButton\<close> returns a wrapper
  \<open>span\<close> (the root) holding the button with id \<open>letta-icon-button\<close>. A root is
  identified by \<open>wid\<close>; \<open>root_id\<close> is its \<open>id\<close> attribute, \<open>has_cleanup\<close> tells
  whether a \<open>_cleanup\<close> closure is stored on it, and \<open>placed\<close> records where it was
  inserted.
\<close>

datatype placement =
    Unplaced
  | InsertBefore ref
  | InsertAfter ref
  | AppendTo ref
  | Prepend ref
  | AppendToBody

record wrapper =
  wid :: nat
  root_id :: jsstring
  has_cleanup :: bool
  placed :: placement

record page =
  hostname :: jsstring
  href :: jsstring
  querySelector :: "jsstring \<Rightarrow> query"
  querySelectorAll :: "jsstring \<Rightarrow> ref list"
  closest :: "ref \<Rightarrow> jsstring \<Rightarrow> ref option"
  querySelectorIn :: "ref \<Rightarrow> jsstring \<Rightarrow> ref option"
  elems :: "ref \<Rightarrow> element"
  layout :: "para list \<Rightarrow> jsstring"
  body :: ref
  overlay :: "wrapper list"
  windowListeners :: "(jsstring \<times> nat) list"
  created :: nat

text \<open>
  \<open>layout\<close> is the text that the browser renders for a list of paragraphs (what
  \<open>innerText\<close> returns); \<open>overlay\<close> lists the roots created by the script that are
  connected to the document; \<open>windowListeners\<close> lists the \<open>scroll\<close> and \<open>resize\<close>
  listeners registered on \<open>window\<close>, each with the root it belongs to; \<open>created\<close>
  counts the roots created so far. The page itself is taken to have no element with the
  ids \<open>letta-icon-button\<close> and \<open>letta-floating-container\<close>, so
  \<open>document.getElementById\<close> of these ids looks at \<open>overlay\<close> only.
\<close>

section \<open>utils/dom-handlers.ts\<close>

datatype platform = chatgpt | claude | gemini | perplexity

definition detectPlatform :: "page \<Rightarrow> platform option" where
  "detectPlatform d =
     (if js_includes (hostname d) (js ''chat.openai.com'') \<or>
         js_includes (hostname d) (js ''chatgpt.com'') then Some chatgpt
      else if js_includes (hostname d) (js ''claude.ai'') then Some claude
      else if js_includes (hostname d) (js ''gemini.google.com'') then Some gemini
      else if js_includes (hostname d) (js ''perplexity.ai'') then Some perplexity
      else None)"

fun TEXTAREA_SELECTORS :: "platform \<Rightarrow> jsstring list" where
  \<open>TEXTAREA_SELECTORS chatgpt =
     [js ''#prompt-textarea'',
      js ''div[contenteditable="true"][data-id="root"]'',
      js ''div[contenteditable="true"]'',
      js ''textarea'']\<close>
| \<open>TEXTAREA_SELECTORS claude =
     [js ''div[contenteditable="true"].ProseMirror'',
      js ''div[contenteditable="true"]'',
      js ''textarea'',
      js ''p[data-placeholder="How can I help you today?"]'',
      js ''p[data-placeholder="Reply to Claude..."]'']\<close>
| \<open>TEXTAREA_SELECTORS gemini =
     [js ''rich-textarea .ql-editor[contenteditable="true"]'',
      js ''rich-textarea .ql-editor.textarea'',
      js ''.ql-editor[aria-label="Enter a prompt here"]'',
      js ''.ql-editor.textarea.new-input-ui'',
      js ''.text-input-field_textarea .ql-editor'',
      js ''div[contenteditable="true"][role="textbox"][aria-label="Enter a prompt here"]'']\<close>
| \<open>TEXTAREA_SELECTORS perplexity =
     [js ''div#ask-input[contenteditable="true"]'',
      js ''textarea#ask-input'',
      js ''div[contenteditable="true"][aria-placeholder^="Ask"]'',
      js ''textarea[placeholder^="Ask"]'',
      js ''textarea[placeholder^="Ask a follow-up"]'',
      js ''div[contenteditable="true"]'',
      js ''textarea'']\<close>

fun SEND_BUTTON_SELECTORS :: "platform \<Rightarrow> jsstring list" where
  \<open>SEND_BUTTON_SELECTORS chatgpt =
     [js ''button[data-testid="send-button"]'',
      js ''button[aria-label="Send prompt"]'',
      js ''form button[type="submit"]'']\<close>
| \<open>SEND_BUTTON_SELECTORS claude =
     [js ''button[aria-label="Send Message"]'',
      js ''button[aria-label="Send message"]'',
      js ''fieldset button:not([aria-label])'',
      js ''button:has(svg[viewBox="0 0 256 256"])'']\<close>
| \<open>SEND_BUTTON_SELECTORS gemini =
     [js ''button[aria-label="Send message"]'',
      js ''button[data-testid="send-button"]'',
      js ''button[type="submit"]:not([aria-label*="attachment"])'',
      js ''.send-button'',
      js ''button[aria-label*="Send"]'',
      js ''button[title*="Send"]'']\<close>
| \<open>SEND_BUTTON_SELECTORS perplexity =
     [js ''button[data-cy="ai-prompt-submit"]'',
      js ''button[data-cy="ai-chat-send-button"]'',
      js ''button[aria-label="Send"]'',
      js ''button[type="button"][aria-label="Send"]'',
      js ''button[aria-label="Submit"]'',
      js ''button[type="submit"]'']\<close>

definition isVisible :: "element \<Rightarrow> bool" where
  "isVisible el \<longleftrightarrow>
     rect_width el > 0 \<and> rect_height el > 0 \<and>
     style_display el \<noteq> js ''none'' \<and> style_visibility el \<noteq> js ''hidden''"

text \<open>
  One turn of the loop of \<open>getTextarea\<close> and \<open>getSendButton\<close>: the candidate of a
  selector, kept when it is present and visible. The \<open>catch\<close> block skips a selector
  that throws.
\<close>

definition candidate :: "page \<Rightarrow> jsstring \<Rightarrow> ref option" where
  "candidate d selector =
     (case querySelector d selector of
        SyntaxError \<Rightarrow> None
      | Result None \<Rightarrow> None
      | Result (Some el) \<Rightarrow> if isVisible (elems d el) then Some el else None)"

text \<open>
  The loop over the selectors. Besides the element it returns the selectors it has
  evaluated, in order, so that the early \<open>return\<close> is visible in the result.
\<close>

fun locate :: "page \<Rightarrow> jsstring list \<Rightarrow> ref option \<times> jsstring list" where
  "locate d [] = (None, [])"
| "locate d (selector # selectors) =
     (case candidate d selector of
        Some el \<Rightarrow> (Some el, [selector])
      | None \<Rightarrow> (let (r, evaluated) = locate d selectors in (r, selector # evaluated)))"

definition getTextarea :: "page \<Rightarrow> platform option \<Rightarrow> ref option" where
  "getTextarea d platform =
     (case (if platform \<noteq> None then platform else detectPlatform d) of
        None \<Rightarrow> None
      | Some p \<Rightarrow> fst (locate d (TEXTAREA_SELECTORS p)))"

definition getSendButton :: "page \<Rightarrow> platform option \<Rightarrow> ref option" where
  "getSendButton d platform =
     (case (if platform \<noteq> None then platform else detectPlatform d) of
        None \<Rightarrow> None
      | Some p \<Rightarrow> fst (locate d (SEND_BUTTON_SELECTORS p)))"

definition isContentEditable :: "element \<Rightarrow> bool" where
  "isContentEditable el \<longleftrightarrow>
     contentEditable el = js ''true'' \<or> attr_contenteditable el = Some (js ''true'')"

text \<open>\<open>a || b\<close> on strings: the empty string is falsy.\<close>

definition or_else :: "jsstring \<Rightarrow> jsstring \<Rightarrow> jsstring" where
  "or_else a b = (if a \<noteq> [] then a else b)"

definition getInputValue :: "page \<Rightarrow> ref option \<Rightarrow> jsstring" where
  "getInputValue d inputElement =
     (case (if inputElement \<noteq> None then inputElement else getTextarea d None) of
        None \<Rightarrow> []
      | Some r \<Rightarrow>
          (let el = elems d r;
               tag = toLowerCase (tagName el);
               isProseMirror = (js ''ProseMirror'' \<in> set (classList el))
           in if isProseMirror then or_else (textContent el) []
              else if tag = js ''p'' then or_else (textContent el) []
              else if isContentEditable el
                then or_else (textContent el) (or_else (innerText el) [])
              else if tag = js ''textarea'' \<or> tag = js ''input''
                then or_else (el_value el) []
              else or_else (textContent el) []))"

definition getContentWithoutMemories :: "page \<Rightarrow> jsstring \<Rightarrow> jsstring" where
  "getContentWithoutMemories d memoryHeaderText =
     (case getTextarea d None of
        None \<Rightarrow> []
      | Some inputElement \<Rightarrow>
          (let content = getInputValue d (Some inputElement)
           in trim
               (if memoryHeaderText = MEMORY_HEADER then
                  (let startIdx = indexOf content MEMORY_HEADER
                   in if startIdx \<noteq> - 1 then
                        (let endIdx = indexOf content MEMORY_FOOTER
                         in if endIdx \<noteq> - 1 \<and> endIdx > startIdx
                            then substring content 0 startIdx @
                                 substring_from content (endIdx + int (length MEMORY_FOOTER))
                            else substring content 0 startIdx)
                      else content)
                else
                  (let prefixIndex = indexOf content memoryHeaderText
                   in if prefixIndex \<noteq> - 1 then substring content 0 prefixIndex
                      else content))))"

section \<open>utils/memory-injection.ts\<close>

record MemoryBlock =
  mb_id :: jsstring
  mb_label :: jsstring
  mb_value :: jsstring

text \<open>The lines that \<open>formatMemoriesForInjection\<close> pushes for one block.\<close>

definition memoryLines :: "MemoryBlock \<Rightarrow> jsstring list" where
  "memoryLines memory =
     (let label = or_else (mb_label memory) (js ''Memory'');
          v = or_else (mb_value memory) []
      in if trim v \<noteq> [] then [js ''['' @ label @ js '']'', v, []] else [])"

definition formatMemoriesForInjection :: "MemoryBlock list \<Rightarrow> jsstring" where
  "formatMemoriesForInjection memories =
     (if memories = [] then []
      else join (js ''\<newline>'')
             ([MEMORY_HEADER, []] @ concat (map memoryLines memories) @ [MEMORY_FOOTER, []]))"

text \<open>
  The four writers of \<open>setInputValue\<close>. Each replaces the content of the element: the
  rich-text writers by one paragraph per line, an empty paragraph for a blank line; the
  textarea writer through the \<open>value\<close> setter of \<open>HTMLTextAreaElement\<close>. The events
  they dispatch, the focus and the cursor are reactions of the host page and are not
  modelled; the answers of \<open>querySelector\<close> are taken to stay as they are. The
  textarea writer is modelled for a \<open>textarea\<close>: on an \<open>input\<close> element the setter
  of \<open>HTMLTextAreaElement\<close> throws a \<open>TypeError\<close>, which is not modelled.
\<close>

definition paragraphs :: "jsstring \<Rightarrow> para list" where
  "paragraphs v = map (\<lambda>line. if trim line = [] then Br else Txt line) (split_on 0x0A v)"

fun paraText :: "para \<Rightarrow> jsstring" where
  "paraText Br = []"
| "paraText (Txt t) = t"
| "paraText (Raw t) = t"

text \<open>The child text content of a list of nodes: the text of the text nodes among them.\<close>

fun childText :: "para \<Rightarrow> jsstring" where
  "childText Br = []"
| "childText (Txt t) = []"
| "childText (Raw t) = t"

text \<open>
  Replacing the children of an element. When the element is a \<open>textarea\<close> whose dirty
  value flag is not set, its value becomes the child text content.
\<close>

definition setInnerParagraphs :: "page \<Rightarrow> ref \<Rightarrow> para list \<Rightarrow> page" where
  "setInnerParagraphs d r ps =
     (let el = elems d r;
          v = (if toLowerCase (tagName el) = js ''textarea'' \<and> \<not> dirtyValue el
               then normalizeNewlines (concat (map childText ps))
               else el_value el)
      in d\<lparr>elems := (elems d)(r := el
           \<lparr>el_value := v, textContent := concat (map paraText ps),
            innerText := layout d ps\<rparr>)\<rparr>)"

definition setTextContent :: "page \<Rightarrow> ref \<Rightarrow> jsstring \<Rightarrow> page" where
  "setTextContent d r v =
     d\<lparr>elems := (elems d)(r := (elems d r)
          \<lparr>textContent := v, innerText := layout d [Txt v]\<rparr>)\<rparr>"

text \<open>
  \<open>setClaudeInputValue\<close> builds \<open>htmlContent\<close>: for every line of the value the markup
  \<open><p>line</p>\<close>, with \<open>&\<close>, \<open><\<close> and \<open>>\<close> escaped, or \<open><p><br></p>\<close> for a blank
  line. \<open>lineMarkup\<close> is the text of that markup with the escapes undone.
  \<open>setInnerHTML\<close> is the assignment of \<open>htmlContent\<close> to \<open>innerHTML\<close>, given the lines:
  the element gets one paragraph per line, except a \<open>textarea\<close>, where the markup is
  not parsed and becomes, tags included, the text of its one text node.
\<close>

definition lineMarkup :: "jsstring \<Rightarrow> jsstring" where
  "lineMarkup line =
     (if trim line = [] then js ''<p><br></p>'' else js ''<p>'' @ line @ js ''</p>'')"

definition setInnerHTML :: "page \<Rightarrow> ref \<Rightarrow> jsstring list \<Rightarrow> page" where
  "setInnerHTML d r lines =
     (if toLowerCase (tagName (elems d r)) = js ''textarea''
      then setInnerParagraphs d r [Raw (rcdataText (concat (map lineMarkup lines)))]
      else setInnerParagraphs d r
             (map (\<lambda>line. if trim line = [] then Br else Txt (parsedText line)) lines))"

definition setClaudeInputValue :: "page \<Rightarrow> ref \<Rightarrow> jsstring \<Rightarrow> page" where
  "setClaudeInputValue d inputElement v =
     (let isParagraph = (toLowerCase (tagName (elems d inputElement)) = js ''p'');
          lines = split_on 0x0A v
      in if isParagraph then
           (case parentElement (elems d inputElement) of
              None \<Rightarrow> setTextContent d inputElement v
            | Some parent \<Rightarrow>
                if attr_contenteditable (elems d parent) = Some (js ''true'')
                then setInnerHTML d parent lines
                else setTextContent d inputElement v)
         else setInnerHTML d inputElement lines)"

definition setGeminiInputValue :: "page \<Rightarrow> ref \<Rightarrow> jsstring \<Rightarrow> page" where
  "setGeminiInputValue d inputElement v = setInnerParagraphs d inputElement (paragraphs v)"

definition setGenericContentEditableValue :: "page \<Rightarrow> ref \<Rightarrow> jsstring \<Rightarrow> page" where
  "setGenericContentEditableValue d inputElement v =
     setInnerParagraphs d inputElement (paragraphs v)"

definition setTextareaValue :: "page \<Rightarrow> ref \<Rightarrow> jsstring \<Rightarrow> page" where
  "setTextareaValue d textarea v =
     d\<lparr>elems := (elems d)(textarea := (elems d textarea)
          \<lparr>el_value := normalizeNewlines v, dirtyValue := True\<rparr>)\<rparr>"

definition setInputValue :: "page \<Rightarrow> ref \<Rightarrow> jsstring \<Rightarrow> page" where
  "setInputValue d inputElement v =
     (let platform = detectPlatform d;
          tag = toLowerCase (tagName (elems d inputElement));
          editable = isContentEditable (elems d inputElement)
      in if platform = Some claude then setClaudeInputValue d inputElement v
         else if platform = Some gemini \<and> editable then setGeminiInputValue d inputElement v
         else if editable then setGenericContentEditableValue d inputElement v
         else if tag = js ''textarea'' \<or> tag = js ''input''
           then setTextareaValue d inputElement v
         else setGenericContentEditableValue d inputElement v)"

section \<open>The state of the content script\<close>

record ChatMessage =
  role :: jsstring
  content :: jsstring

record LettaSyncPayload =
  userMessage :: jsstring
  recentContext :: "ChatMessage list"
  timestamp :: int
  url :: jsstring

text \<open>What a \<open>setTimeout\<close> of the script runs when it fires.\<close>

datatype task = MountTask | RemountTask | CaptureTask

text \<open>
  The page together with the module variables of \<open>memory-injection.ts\<close>
  (\<open>injectedMemoryIds\<close>) and of \<open>universal-injector.ts\<close>. \<open>buttonHost\<close> refers to the
  button through the root that holds it; the observers and intervals are present or
  not; \<open>timeouts\<close> lists the \<open>setTimeout\<close> calls made so far, each with its delay
  in milliseconds and what it will run; \<open>sent\<close> lists the payloads passed to
  \<open>chrome.runtime.sendMessage\<close>. The field \<open>context\<close> of a payload is called
  \<open>recentContext\<close> here.
\<close>

record world =
  doc :: page
  injectedMemoryIds :: "jsstring set"
  platform_var :: "platform option"
  buttonHost :: "wrapper option"
  inputValueCopy :: jsstring
  buttonWatcherStarted :: bool
  mutationObserver :: bool
  buttonWatcherInterval :: bool
  urlMonitorInterval :: bool
  captureObserver :: bool
  lastUrl :: jsstring
  timeouts :: "(nat \<times> task) list"
  sent :: "LettaSyncPayload list"

section \<open>utils/memory-injection.ts: injection\<close>

definition trackInjected :: "jsstring set \<Rightarrow> MemoryBlock list \<Rightarrow> jsstring set" where
  "trackInjected ids memories =
     foldl (\<lambda>s m. if mb_id m \<noteq> [] then insert (mb_id m) s else s) ids memories"

definition injectMemories :: "world \<Rightarrow> MemoryBlock list \<Rightarrow> bool \<times> world" where
  "injectMemories w memories =
     (case detectPlatform (doc w) of
        None \<Rightarrow> (False, w)
      | Some platform \<Rightarrow>
          (case getTextarea (doc w) (Some platform) of
             None \<Rightarrow> (False, w)
           | Some textarea \<Rightarrow>
               (let existingContent = getContentWithoutMemories (doc w) MEMORY_HEADER;
                    memoryText = formatMemoriesForInjection memories
                in if memoryText = [] then (False, w)
                   else (let newValue = memoryText @ existingContent
                         in (True,
                             w\<lparr>doc := setInputValue (doc w) textarea newValue,
                               injectedMemoryIds :=
                                 trackInjected (injectedMemoryIds w) memories\<rparr>)))))"

definition addSingleMemory :: "world \<Rightarrow> MemoryBlock \<Rightarrow> bool \<times> world" where
  "addSingleMemory w memory =
     (case detectPlatform (doc w) of
        None \<Rightarrow> (False, w)
      | Some platform \<Rightarrow>
          (case getTextarea (doc w) (Some platform) of
             None \<Rightarrow> (False, w)
           | Some textarea \<Rightarrow>
               if mb_id memory \<noteq> [] \<and> mb_id memory \<in> injectedMemoryIds w then (False, w)
               else
                 (let currentContent = getInputValue (doc w) (Some textarea)
                  in if js_includes currentContent MEMORY_HEADER then
                       (let footerIndex = indexOf currentContent MEMORY_FOOTER
                        in if footerIndex \<noteq> - 1 then
                             (let label = or_else (mb_label memory) (js ''Memory'');
                                  v = or_else (mb_value memory) [];
                                  memoryEntry =
                                    js ''\<newline>['' @ label @ js '']\<newline>'' @ v @ js ''\<newline>'';
                                  newContent =
                                    substring currentContent 0 footerIndex @ memoryEntry @
                                    substring_from currentContent footerIndex
                              in (True,
                                  w\<lparr>doc := setInputValue (doc w) textarea newContent,
                                    injectedMemoryIds :=
                                      (if mb_id memory \<noteq> []
                                       then insert (mb_id memory) (injectedMemoryIds w)
                                       else injectedMemoryIds w)\<rparr>))
                           else (False, w))
                     else injectMemories w [memory])))"

definition clearMemoriesFromInput :: "world \<Rightarrow> world" where
  "clearMemoriesFromInput w =
     (case detectPlatform (doc w) of
        None \<Rightarrow> w
      | Some platform \<Rightarrow>
          (case getTextarea (doc w) (Some platform) of
             None \<Rightarrow> w
           | Some textarea \<Rightarrow>
               (let cleanContent = getContentWithoutMemories (doc w) MEMORY_HEADER
                in w\<lparr>doc := setInputValue (doc w) textarea (trim cleanContent),
                     injectedMemoryIds := {}\<rparr>)))"

definition extractUserMessage :: "world \<Rightarrow> jsstring" where
  "extractUserMessage w = getContentWithoutMemories (doc w) MEMORY_HEADER"

definition resetInjectionState :: "world \<Rightarrow> world" where
  "resetInjectionState w = w\<lparr>injectedMemoryIds := {}\<rparr>"

section \<open>universal-injector.ts: the overlay\<close>

text \<open>
  \<open>document.querySelector\<close> outside a \<open>try\<close> block. The selectors used there are
  plain attribute, class and id selectors, which no browser rejects; the model reads a
  \<open>SyntaxError\<close> as no match.
\<close>

definition qs :: "page \<Rightarrow> jsstring \<Rightarrow> ref option" where
  "qs d selector = (case querySelector d selector of SyntaxError \<Rightarrow> None | Result r \<Rightarrow> r)"

text \<open>\<open>x?.parentElement\<close> as a condition.\<close>

definition hasParent :: "page \<Rightarrow> ref option \<Rightarrow> bool" where
  "hasParent d x = (case x of None \<Rightarrow> False | Some r \<Rightarrow> parentElement (elems d r) \<noteq> None)"

text \<open>\<open>a || b\<close> on element references.\<close>

definition orElse :: "'a option \<Rightarrow> 'a option \<Rightarrow> 'a option" where
  "orElse a b = (case a of None \<Rightarrow> b | Some x \<Rightarrow> Some x)"

definition getElementById :: "page \<Rightarrow> jsstring \<Rightarrow> wrapper option" where
  "getElementById d i =
     (if i = js ''letta-icon-button'' then (case overlay d of [] \<Rightarrow> None | x # _ \<Rightarrow> Some x)
      else if i = [] then None
      else find (\<lambda>x. root_id x = i) (overlay d))"

text \<open>
  \<open>removeUI\<close>. \<open>runCleanup\<close> is the call of the \<open>_cleanup\<close> closure when the root has
  one: it removes the \<open>scroll\<close> and \<open>resize\<close> listeners of that root from \<open>window\<close>.
  \<open>buttonHost\<close> holds the button; its \<open>parentElement\<close> is the root it was created in.
\<close>

definition runCleanup :: "page \<Rightarrow> wrapper \<Rightarrow> page" where
  "runCleanup d c =
     (if has_cleanup c
      then d\<lparr>windowListeners := filter (\<lambda>(ev, owner). owner \<noteq> wid c) (windowListeners d)\<rparr>
      else d)"

definition isConnected :: "page \<Rightarrow> wrapper \<Rightarrow> bool" where
  "isConnected d c \<longleftrightarrow> wid c \<in> set (map wid (overlay d))"

definition removeNode :: "page \<Rightarrow> wrapper \<Rightarrow> page" where
  "removeNode d c = d\<lparr>overlay := filter (\<lambda>x. wid x \<noteq> wid c) (overlay d)\<rparr>"

definition removeUI :: "world \<Rightarrow> world" where
  "removeUI w =
     (let w1 = (case getElementById (doc w) (js ''letta-floating-container'') of
                  None \<Rightarrow> w
                | Some c \<Rightarrow> w\<lparr>doc := removeNode (runCleanup (doc w) c) c\<rparr>)
      in case buttonHost w1 of
           None \<Rightarrow> w1
         | Some rootEl \<Rightarrow>
             (let d1 = runCleanup (doc w1) rootEl;
                  d2 = (if isConnected d1 rootEl then removeNode d1 rootEl else d1)
              in w1\<lparr>doc := d2, buttonHost := None\<rparr>))"

text \<open>
  \<open>createLettaButton\<close> followed by the insertion of the root at a place of the
  document and \<open>buttonHost = button\<close>: the common end of every successful strategy.
  The style changes made on the way are not modelled.
\<close>

definition createLettaButton :: "page \<Rightarrow> wrapper \<times> page" where
  "createLettaButton d =
     (\<lparr>wid = created d, root_id = [], has_cleanup = False, placed = Unplaced\<rparr>,
      d\<lparr>created := Suc (created d)\<rparr>)"

definition mountAt :: "world \<Rightarrow> placement \<Rightarrow> bool \<times> world" where
  "mountAt w place =
     (let (rootEl, d1) = createLettaButton (doc w);
          rootEl' = rootEl\<lparr>placed := place\<rparr>
      in (True, w\<lparr>doc := d1\<lparr>overlay := overlay d1 @ [rootEl']\<rparr>, buttonHost := Some rootEl'\<rparr>))"

definition mountChatGPTButton :: "world \<Rightarrow> bool \<times> world" where
  \<open>mountChatGPTButton w =
     (let d = doc w;
          strategy2 =
            (case qs d (js ''#composer-submit-button'') of
               None \<Rightarrow> (False, w)
             | Some sendButton \<Rightarrow>
                 if hasParent d (Some sendButton) then mountAt w (InsertBefore sendButton)
                 else (False, w))
      in case qs d (js ''button[data-testid="composer-plus-btn"]'') of
           None \<Rightarrow> strategy2
         | Some plusButton \<Rightarrow>
             (let plusButtonParent = closest d plusButton (js ''span.flex'');
                  leadingContainer = closest d plusButton (js ''div[class*="leading"]'')
              in case (if hasParent d plusButtonParent then plusButtonParent else None) of
                   Some pp \<Rightarrow> mountAt w (InsertAfter pp)
                 | None \<Rightarrow>
                     (case leadingContainer of
                        Some lc \<Rightarrow> mountAt w (AppendTo lc)
                      | None \<Rightarrow> strategy2)))\<close>

definition mountClaudeButton :: "world \<Rightarrow> bool \<times> world" where
  \<open>mountClaudeButton w =
     (let d = doc w;
          sendButton = orElse (qs d (js ''button[aria-label="Send Message"]''))
                              (qs d (js ''button[aria-label="Send message"]''));
          toolsTrigger = qs d (js ''#input-tools-menu-trigger'')
      in case (if hasParent d sendButton then sendButton else None) of
           Some sb \<Rightarrow> mountAt w (InsertBefore sb)
         | None \<Rightarrow>
             (case (if hasParent d toolsTrigger then toolsTrigger else None) of
                Some t \<Rightarrow> mountAt w (InsertAfter t)
              | None \<Rightarrow> (False, w)))\<close>

definition mountGeminiButton :: "world \<Rightarrow> bool \<times> world" where
  \<open>mountGeminiButton w =
     (let d = doc w;
          mainArea = qs d (js ''.text-input-field-main-area'');
          toolbox = qs d (js ''toolbox-drawer .toolbox-drawer-container'');
          sendButton = getSendButton d (platform_var w)
      in case (if hasParent d mainArea then mainArea else None) of
           Some m \<Rightarrow> mountAt w (InsertBefore m)
         | None \<Rightarrow>
             (case toolbox of
                Some t \<Rightarrow> mountAt w (AppendTo t)
              | None \<Rightarrow>
                  (case (if hasParent d sendButton then sendButton else None) of
                     Some sb \<Rightarrow> mountAt w (InsertBefore sb)
                   | None \<Rightarrow> (False, w))))\<close>

text \<open>
  The last strategy of Perplexity: a fixed-position root appended to the body, with
  \<open>scroll\<close> and \<open>resize\<close> listeners on \<open>window\<close> and the \<open>_cleanup\<close> closure that
  removes them.
\<close>

definition mountFloating :: "world \<Rightarrow> bool \<times> world" where
  "mountFloating w =
     (let (rootEl, d1) = createLettaButton (doc w);
          rootEl' = rootEl\<lparr>root_id := js ''letta-floating-container'', has_cleanup := True,
                      placed := AppendToBody\<rparr>
      in (True,
          w\<lparr>doc := d1\<lparr>overlay := overlay d1 @ [rootEl'],
                       windowListeners := windowListeners d1 @
                         [(js ''scroll'', wid rootEl'), (js ''resize'', wid rootEl')]\<rparr>,
            buttonHost := Some rootEl'\<rparr>))"

definition mountPerplexityButton :: "world \<Rightarrow> bool \<times> world" where
  \<open>mountPerplexityButton w =
     (let d = doc w;
          studio = qs d (js ''div[data-testid="search-mode-studio"]'');
          group = (case studio of None \<Rightarrow> None | Some s \<Rightarrow> closest d s (js ''[role="radiogroup"]''));
          controlsRow = qs d (js ''div.gap-xs.flex.items-center'');
          inputEl =
            orElse (qs d (js ''div#ask-input[contenteditable="true"]''))
              (orElse (qs d (js ''textarea#ask-input''))
                 (orElse (qs d (js ''div[contenteditable="true"][aria-placeholder^="Ask"]''))
                    (orElse (qs d (js ''textarea[placeholder^="Ask"]''))
                       (qs d (js ''textarea'')))))
      in case group of
           Some g \<Rightarrow> mountAt w (InsertAfter g)
         | None \<Rightarrow>
             (case controlsRow of
                Some row \<Rightarrow> mountAt w (AppendTo row)
              | None \<Rightarrow>
                  (case inputEl of
                     None \<Rightarrow> (False, w)
                   | Some i \<Rightarrow>
                       (case find (\<lambda>current. style_display (elems d current) = js ''flex'')
                               (takeWhile (\<lambda>current. current \<noteq> body d)
                                  (i # ancestors (elems d i))) of
                          Some current \<Rightarrow> mountAt w (Prepend current)
                        | None \<Rightarrow> mountFloating w))))\<close>

text \<open>
  \<open>deriveAnchor\<close>, \<open>FALLBACK_ANCHORS\<close> and \<open>getAnchor\<close> of \<open>dom-handlers.ts\<close>, used
  by the generic strategy.
\<close>

definition deriveAnchor :: "page \<Rightarrow> platform \<Rightarrow> ref \<Rightarrow> ref option" where
  \<open>deriveAnchor d p editor =
     (let form = closest d editor (js ''form'');
          formOrParent = orElse form (parentElement (elems d editor))
      in case p of
           chatgpt \<Rightarrow>
             (case form of
                None \<Rightarrow> formOrParent
              | Some f \<Rightarrow>
                  (case orElse (querySelectorIn d f (js ''[data-testid="composer-trailing-actions"]''))
                         (orElse (querySelectorIn d f (js ''.composer-trailing-actions''))
                            (orElse (querySelectorIn d f
                                       (js (''.items-center.gap-1'' @ [CHR 0x5C] @ ''.5'')))
                               (querySelectorIn d f (js ''.items-center.gap-2'')))) of
                     Some toolbar \<Rightarrow> Some toolbar
                   | None \<Rightarrow> formOrParent))
         | claude \<Rightarrow> formOrParent
         | gemini \<Rightarrow>
             (case qs d (js ''toolbox-drawer .toolbox-drawer-container'') of
                Some toolbox \<Rightarrow> Some toolbox
              | None \<Rightarrow> formOrParent)
         | perplexity \<Rightarrow> formOrParent)\<close>

fun FALLBACK_ANCHORS :: "platform \<Rightarrow> jsstring list" where
  \<open>FALLBACK_ANCHORS chatgpt =
     [js ''form [data-testid="composer-trailing-actions"]'',
      js ''form .composer-trailing-actions'',
      js ''form textarea'',
      js ''main form textarea'']\<close>
| \<open>FALLBACK_ANCHORS claude =
     [js ''#input-tools-menu-trigger'', js ''button[aria-label*="Send" i]'', js ''fieldset'']\<close>
| \<open>FALLBACK_ANCHORS gemini =
     [js ''toolbox-drawer .toolbox-drawer-container'',
      js ''.input-area-container'',
      js ''.text-input-field'']\<close>
| \<open>FALLBACK_ANCHORS perplexity = [js ''button[aria-label="Submit"]'', js ''form'']\<close>

definition getAnchor :: "page \<Rightarrow> platform option \<Rightarrow> ref option" where
  "getAnchor d platform =
     (case (if platform \<noteq> None then platform else detectPlatform d) of
        None \<Rightarrow> None
      | Some p \<Rightarrow>
          (let editor = getTextarea d (Some p);
               derived = (case editor of None \<Rightarrow> None | Some e \<Rightarrow> deriveAnchor d p e)
           in case (case derived of
                      None \<Rightarrow> None
                    | Some a \<Rightarrow> if isVisible (elems d a) then Some a else None) of
                Some a \<Rightarrow> Some a
              | None \<Rightarrow>
                  (case fst (locate d (FALLBACK_ANCHORS p)) of
                     Some el \<Rightarrow> Some el
                   | None \<Rightarrow>
                       (case editor of
                          None \<Rightarrow> None
                        | Some e \<Rightarrow>
                            orElse (closest d e (js ''form'')) (parentElement (elems d e))))))"

definition mountGenericButton :: "world \<Rightarrow> bool \<times> world" where
  "mountGenericButton w =
     (let d = doc w;
          sendButton = getSendButton d (platform_var w)
      in case (if hasParent d sendButton then sendButton else None) of
           Some sb \<Rightarrow> mountAt w (InsertBefore sb)
         | None \<Rightarrow>
             (case getAnchor d (platform_var w) of
                Some anchor \<Rightarrow> mountAt w (AppendTo anchor)
              | None \<Rightarrow> (False, w)))"

text \<open>
  \<open>startButtonWatcher\<close> installs the mutation observer and the 2000 ms interval; both
  run \<open>buttonWatcherCheck\<close>. \<open>mountButtonOnEditor\<close> and the check call each other, as in
  the source, but the check is only installed, not run, by the mount.
\<close>

definition startButtonWatcher :: "world \<Rightarrow> world" where
  "startButtonWatcher w = w\<lparr>mutationObserver := True, buttonWatcherInterval := True\<rparr>"

definition controlPresent :: "page \<Rightarrow> bool" where
  "controlPresent d \<longleftrightarrow>
     getElementById d (js ''letta-icon-button'') \<noteq> None \<or>
     getElementById d (js ''letta-floating-container'') \<noteq> None"

text \<open>The \<open>switch\<close> of \<open>mountButtonOnEditor\<close> over the platform.\<close>

definition mountForPlatform :: "world \<Rightarrow> bool \<times> world" where
  "mountForPlatform w =
     (case platform_var w of
        Some chatgpt \<Rightarrow> mountChatGPTButton w
      | Some claude \<Rightarrow> mountClaudeButton w
      | Some gemini \<Rightarrow> mountGeminiButton w
      | Some perplexity \<Rightarrow> mountPerplexityButton w
      | None \<Rightarrow> mountGenericButton w)"

definition mountButtonOnEditor :: "world \<Rightarrow> world" where
  "mountButtonOnEditor w =
     (if controlPresent (doc w) then w
      else
        (let w1 = (if buttonHost w \<noteq> None then removeUI w else w);
             (success, w2) = mountForPlatform w1;
             w3 = (if \<not> success then w2\<lparr>timeouts := timeouts w2 @ [(1000, MountTask)]\<rparr> else w2)
         in if \<not> buttonWatcherStarted w3
            then startButtonWatcher (w3\<lparr>buttonWatcherStarted := True\<rparr>)
            else w3))"

definition buttonWatcherCheck :: "world \<Rightarrow> world" where
  "buttonWatcherCheck w =
     (if \<not> controlPresent (doc w)
      then mountButtonOnEditor (if buttonHost w \<noteq> None then removeUI w else w)
      else w)"

definition cleanup :: "world \<Rightarrow> world" where
  "cleanup w =
     removeUI (w\<lparr>buttonWatcherInterval := False, urlMonitorInterval := False,
                 mutationObserver := False, captureObserver := False\<rparr>)"

section \<open>universal-injector.ts: message capture\<close>

fun MESSAGE_SELECTORS :: "platform \<Rightarrow> jsstring \<times> jsstring" where
  \<open>MESSAGE_SELECTORS chatgpt =
     (js ''[data-message-author-role=\'user\']'', js ''[data-message-author-role=\'assistant\']'')\<close>
| \<open>MESSAGE_SELECTORS claude = (js ''.font-user-message'', js ''.font-claude-message'')\<close>
| \<open>MESSAGE_SELECTORS gemini =
     (js ''.query-content, .user-query'', js ''.model-response-text, .response-container'')\<close>
| \<open>MESSAGE_SELECTORS perplexity =
     (js ''[data-testid=\'user-message\'], .prose.user'',
      js ''[data-testid=\'assistant-message\'], .prose:not(.user)'')\<close>

definition addSendListeners :: "world \<Rightarrow> world" where
  "addSendListeners w =
     (let d = doc w;
          d1 = (case getSendButton d (platform_var w) of
                  None \<Rightarrow> d
                | Some sendButton \<Rightarrow>
                    if \<not> dataset_lettaListener (elems d sendButton)
                    then d\<lparr>elems := (elems d)(sendButton := (elems d sendButton)
                           \<lparr>dataset_lettaListener := True, onClick_handleSend := True\<rparr>)\<rparr>
                    else d);
          d2 = (case getTextarea d1 (platform_var w) of
                  None \<Rightarrow> d1
                | Some textarea \<Rightarrow>
                    if \<not> dataset_lettaKeyListener (elems d1 textarea)
                    then d1\<lparr>elems := (elems d1)(textarea := (elems d1 textarea)
                           \<lparr>dataset_lettaKeyListener := True, onKeydown_handleKeydown := True\<rparr>)\<rparr>
                    else d1)
      in w\<lparr>doc := d2\<rparr>)"

text \<open>
  \<open>getRecentMessages\<close>. The comparison function of the sort orders two elements by
  \<open>compareDocumentPosition\<close>, that is by their position in the document;
  \<open>Array.prototype.sort\<close> is stable. \<open>recentElements\<close> is the local \<open>recent\<close>.
\<close>

definition recentElements :: "world \<Rightarrow> int \<Rightarrow> (ref \<times> jsstring) list" where
  "recentElements w count =
     (case platform_var w of
        None \<Rightarrow> []
      | Some p \<Rightarrow>
          (let selectors = MESSAGE_SELECTORS p;
               userElements = querySelectorAll (doc w) (fst selectors);
               assistantElements = querySelectorAll (doc w) (snd selectors);
               allElements = map (\<lambda>el. (el, js ''user'')) userElements @
                             map (\<lambda>el. (el, js ''assistant'')) assistantElements
           in slice_from (sort_key (\<lambda>(el, r). position (elems (doc w) el)) allElements)
                (- count)))"

definition getRecentMessages :: "world \<Rightarrow> int \<Rightarrow> ChatMessage list" where
  "getRecentMessages w count =
     concat (map (\<lambda>(el, r).
                    (let c = or_else (trim (textContent (elems (doc w) el))) []
                     in if c \<noteq> [] then [\<lparr>role = r, content = slice c 0 500\<rparr>] else []))
               (recentElements w count))"

definition syncToBackground :: "int \<Rightarrow> world \<Rightarrow> jsstring \<Rightarrow> ChatMessage list \<Rightarrow> world" where
  "syncToBackground now w message ctx =
     w\<lparr>sent := sent w @
          [\<lparr>userMessage = message, recentContext = ctx, timestamp = now, url = href (doc w)\<rparr>]\<rparr>"

definition captureAndSync :: "int \<Rightarrow> world \<Rightarrow> world" where
  "captureAndSync now w =
     (let message = or_else (extractUserMessage w) (inputValueCopy w)
      in if trim message = [] then w
         else (syncToBackground now w (trim message) (getRecentMessages w 2))
                \<lparr>inputValueCopy := []\<rparr>)"

definition handleSend :: "world \<Rightarrow> world" where
  "handleSend w =
     w\<lparr>inputValueCopy := extractUserMessage w, timeouts := timeouts w @ [(100, CaptureTask)]\<rparr>"

definition handleKeydown :: "world \<Rightarrow> jsstring \<Rightarrow> bool \<Rightarrow> world" where
  "handleKeydown w key shiftKey =
     (let w1 = w\<lparr>inputValueCopy := extractUserMessage w\<rparr>
      in if key = js ''Enter'' \<and> \<not> shiftKey
         then w1\<lparr>timeouts := timeouts w1 @ [(100, CaptureTask)]\<rparr>
         else w1)"

section \<open>universal-injector.ts: URL monitoring\<close>

text \<open>
  \<open>urlMonitorTick\<close> is the callback that \<open>setupUrlMonitoring\<close> runs every 500 ms;
  \<open>runTask\<close> is what each pending \<open>setTimeout\<close> runs when its delay has passed, at
  the time \<open>now\<close>.
\<close>

definition setupUrlMonitoring :: "world \<Rightarrow> world" where
  "setupUrlMonitoring w = w\<lparr>urlMonitorInterval := True\<rparr>"

definition urlMonitorTick :: "world \<Rightarrow> world" where
  "urlMonitorTick w =
     (if href (doc w) \<noteq> lastUrl w then
        (let w1 = w\<lparr>lastUrl := href (doc w)\<rparr>;
             w2 = removeUI w1;
             w3 = resetInjectionState w2
         in w3\<lparr>timeouts := timeouts w3 @ [(500, RemountTask)]\<rparr>)
      else w)"

fun runTask :: "int \<Rightarrow> task \<Rightarrow> world \<Rightarrow> world" where
  "runTask now MountTask w = mountButtonOnEditor w"
| "runTask now RemountTask w = addSendListeners (mountButtonOnEditor w)"
| "runTask now CaptureTask w = clearMemoriesFromInput (captureAndSync now w)"

section \<open>background.ts\<close>


definition CONTEXT_PATTERNS :: "jsstring list" where
  "CONTEXT_PATTERNS =
     [js ''<memory>'',
      js ''<user_context>'',
      js ''LETTA MEMORY CONTEXT'',
      [0xD83E, 0xDDE0] @ js '' Letta'',
      js ''[persona]'',
      js ''[human]'']"

record Settings =
  apiKey :: jsstring
  agentId :: jsstring
  captureTargets :: "platform list"

record LettaSyncResponse =
  success :: bool
  error :: "jsstring option"

text \<open>
  The state of the service worker, for as long as the browser keeps it running: its two
  module variables, and the calls of \<open>captureMessages\<close> made so far (agent, messages,
  platform).
\<close>

record background =
  lastSyncTime :: int
  lastCapturedHash :: "jsstring option"
  captured :: "(jsstring \<times> ChatMessage list \<times> platform) list"

definition bgDetectPlatform :: "jsstring \<Rightarrow> platform option" where
  "bgDetectPlatform u =
     (if u = [] then None
      else if js_includes u (js ''chatgpt.com'') \<or> js_includes u (js ''chat.openai.com'')
        then Some chatgpt
      else if js_includes u (js ''claude.ai'') then Some claude
      else if js_includes u (js ''perplexity.ai'') then Some perplexity
      else if js_includes u (js ''gemini.google.com'') then Some gemini
      else None)"

text \<open>
  \<open>handleSync\<close> is an \<open>async\<close> function: it runs until \<open>await getSettings()\<close>, is
  resumed when the settings are there and runs until \<open>await captureMessages(...)\<close>, and
  is resumed once more when that call has resolved or thrown. Between these pieces other
  handlers may run. A handler is suspended at the first await, holding \<open>now\<close> and the
  payload, or at the second, holding \<open>msgHash\<close>, or it has returned its response.
\<close>

datatype handler =
    AwaitSettings int LettaSyncPayload
  | AwaitCapture jsstring
  | Done LettaSyncResponse


text \<open>
  The piece from the first await to the second: \<open>settings\<close> is what \<open>getSettings\<close> has
  resolved to (it never rejects), \<open>b\<close> the module variables as they are at that moment.
  The call of \<open>captureMessages\<close> is made at the end of this piece.
\<close>

definition handleSyncSettings ::
  "background \<Rightarrow> int \<Rightarrow> LettaSyncPayload \<Rightarrow> Settings \<Rightarrow> handler \<times> background" where
  "handleSyncSettings b now payload settings =
     (if apiKey settings = [] \<or> agentId settings = []
        then (Done \<lparr>success = False, error = Some (js ''Not configured'')\<rparr>, b)
      else
        (case bgDetectPlatform (url payload) of
           None \<Rightarrow> (Done \<lparr>success = False, error = Some (js ''Unknown platform'')\<rparr>, b)
         | Some platform \<Rightarrow>
             if platform \<notin> set (captureTargets settings)
               then (Done \<lparr>success = False, error = Some (js ''Capture disabled'')\<rparr>, b)
             else if list_ex (\<lambda>pattern. js_includes (userMessage payload) pattern) CONTEXT_PATTERNS
               then (Done \<lparr>success = False, error = Some (js ''Contains Letta context'')\<rparr>, b)
             else if trim (userMessage payload) = []
               then (Done \<lparr>success = False, error = Some (js ''Empty message'')\<rparr>, b)
             else
               (let msgHash = slice (userMessage payload) 0 200
                in if Some msgHash = lastCapturedHash b
                     then (Done \<lparr>success = False, error = Some (js ''Duplicate message'')\<rparr>, b)
                   else
                     (let b1 = b\<lparr>lastSyncTime := now\<rparr>;
                          messages = recentContext payload @
                                     [\<lparr>role = js ''user'', content = userMessage payload\<rparr>]
                      in (AwaitCapture msgHash,
                          b1\<lparr>captured := captured b1 @
                                [(agentId settings, messages, platform)]\<rparr>)))))"







section \<open>A page to run the definitions on\<close>

text \<open>
  A ChatGPT page whose only element is a visible \<open>textarea\<close> with the given value,
  and the state of the content script just after it was loaded on that page.
\<close>

definition textareaElement :: "jsstring \<Rightarrow> element" where
  "textareaElement v =
     \<lparr>tagName = js ''TEXTAREA'', classList = [], contentEditable = js ''inherit'',
      attr_contenteditable = None, el_value = v, dirtyValue = False, textContent = [],
      innerText = [],
      rect_width = 600, rect_height = 40, style_display = js ''block'',
      style_visibility = js ''visible'', ancestors = [1], position = 7,
      dataset_lettaListener = False, dataset_lettaKeyListener = False,
      onClick_handleSend = False, onKeydown_handleKeydown = False\<rparr>"

definition textareaPage :: "jsstring \<Rightarrow> page" where
  "textareaPage v =
     \<lparr>hostname = js ''chatgpt.com'', href = js ''https://chatgpt.com/'',
      querySelector = (\<lambda>s. if s = js ''#prompt-textarea'' then Result (Some 0) else Result None),
      querySelectorAll = (\<lambda>s. []),
      closest = (\<lambda>r s. None),
      querySelectorIn = (\<lambda>r s. None),
      elems = (\<lambda>r. textareaElement v),
      layout = (\<lambda>ps. concat (map paraText ps)),
      body = 1, overlay = [], windowListeners = [], created = 0\<rparr>"

definition loaded :: "page \<Rightarrow> world" where
  "loaded d =
     \<lparr>doc = d, injectedMemoryIds = {}, platform_var = detectPlatform d, buttonHost = None,
      inputValueCopy = [], buttonWatcherStarted = False, mutationObserver = False,
      buttonWatcherInterval = False, urlMonitorInterval = False, captureObserver = False,
      lastUrl = href d, timeouts = [], sent = []\<rparr>"

text \<open>The block of the scenario of the specification, with an id.\<close>

definition factsBlock :: MemoryBlock where
  "factsBlock = \<lparr>mb_id = js ''block-1'', mb_label = js ''facts'', mb_value = js ''Uses a laptop''\<rparr>"


text \<open>
  A ChatGPT page on which the first editor selector matches a hidden element, the
  second is rejected by the browser and the third matches a visible element.
\<close>

definition fallbackPage :: page where
  \<open>fallbackPage =
     (textareaPage [])
       \<lparr>querySelector :=
          (\<lambda>s. if s = js ''#prompt-textarea'' then Result (Some 3)
                else if s = js ''div[contenteditable="true"][data-id="root"]'' then SyntaxError
                else if s = js ''div[contenteditable="true"]'' then Result (Some 4)
                else Result None),
        elems :=
          (\<lambda>r. if r = 3 then (textareaElement [])\<lparr>style_display := js ''none''\<rparr>
                else textareaElement [])\<rparr>\<close>






text \<open>
  A ChatGPT page that shows three messages: a user message, an assistant message of
  600 code units and a second user message.
\<close>

definition messageElement :: "nat \<Rightarrow> jsstring \<Rightarrow> element" where
  "messageElement pos t = (textareaElement [])\<lparr>tagName := js ''DIV'', textContent := t, position := pos\<rparr>"

definition chatPage :: page where
  \<open>chatPage =
     (textareaPage [])
       \<lparr>querySelectorAll :=
          (\<lambda>s. if s = js ''[data-message-author-role=\'user\']'' then [10, 30]
                else if s = js ''[data-message-author-role=\'assistant\']'' then [20]
                else []),
        elems :=
          (\<lambda>r. if r = 10 then messageElement 10 (js ''first question'')
                else if r = 20 then messageElement 20 (replicate 600 0x61)
                else if r = 30 then messageElement 30 (js '' second question '')
                else textareaElement (js ''third question''))\<rparr>\<close>

section \<open>The invariant of the overlay\<close>

text \<open>
  At most one root of the script is in the document, and it is the one that
  \<open>buttonHost\<close> refers to. It holds when the script is loaded on a page that has no
  such root, and \<open>removeUI\<close>, \<open>mountButtonOnEditor\<close> and the removal of the root by
  the host page keep it.
\<close>

definition tracked :: "world \<Rightarrow> bool" where
  "tracked w \<longleftrightarrow>
     (case overlay (doc w) of
        [] \<Rightarrow> True
      | [x] \<Rightarrow> buttonHost w = Some x
      | _ \<Rightarrow> False)"

text \<open>
  The example page with a send button \<open>#composer-submit-button\<close> that has a parent, so
  that the second strategy of ChatGPT applies; and a state in which the address last
  seen by the URL monitor is an older one.
\<close>

definition composerPage :: page where
  "composerPage =
     (textareaPage [])
       \<lparr>querySelector :=
          (\<lambda>s. if s = js ''#composer-submit-button'' then Result (Some 2)
                else querySelector (textareaPage []) s)\<rparr>"

definition navigated :: "world \<Rightarrow> world" where
  "navigated w = w\<lparr>lastUrl := js ''https://chatgpt.com/c/old''\<rparr>"

text \<open>What a strategy may do: nothing, or create one root, put it into the document and
  let \<open>buttonHost\<close> refer to it.\<close>

definition placedOne :: "world \<Rightarrow> bool \<times> world \<Rightarrow> bool" where
  "placedOne w r \<longleftrightarrow>
     (\<exists>x wl. r = (True, w\<lparr>doc := (doc w)\<lparr>created := Suc (created (doc w)),
                                         overlay := overlay (doc w) @ [x],
                                         windowListeners := windowListeners (doc w) @ wl\<rparr>,
                            buttonHost := Some x\<rparr>))"

section \<open>Facts about the string operations\<close>

lemma indexOf_range: "indexOf s p = - 1 \<or> (0 \<le> indexOf s p \<and> indexOf s p \<le> int (length s))"
  by (induction s) (auto simp: Let_def)

lemma indexOf_ge: "- 1 \<le> indexOf s p"
  using indexOf_range [of s p] by auto

lemma indexOf_prefix: "prefix p s \<Longrightarrow> indexOf s p = 0"
  by (cases s) auto

lemma indexOf_found: "indexOf s p \<noteq> - 1 \<Longrightarrow> prefix p (drop (nat (indexOf s p)) s)"
proof (induction s)
  case Nil
  then show ?case by (simp split: if_splits)
next
  case (Cons c cs)
  show ?case
  proof (cases "prefix p (c # cs)")
    case True
    then show ?thesis by simp
  next
    case False
    with Cons.prems have r: "indexOf cs p \<noteq> - 1" by (auto simp: Let_def)
    with indexOf_range [of cs p] have "0 \<le> indexOf cs p" by auto
    then have "nat (indexOf cs p + 1) = Suc (nat (indexOf cs p))" by simp
    with False r Cons.IH show ?thesis by (simp add: Let_def)
  qed
qed

lemma indexOf_least: "indexOf s p \<noteq> - 1 \<Longrightarrow> j < nat (indexOf s p) \<Longrightarrow> \<not> prefix p (drop j s)"
proof (induction s arbitrary: j)
  case Nil
  then show ?case by (simp split: if_splits)
next
  case (Cons c cs)
  show ?case
  proof (cases "prefix p (c # cs)")
    case True
    with Cons.prems show ?thesis by simp
  next
    case False
    with Cons.prems have r: "indexOf cs p \<noteq> - 1" by (auto simp: Let_def)
    with indexOf_range [of cs p] have nn: "0 \<le> indexOf cs p" by auto
    show ?thesis
    proof (cases j)
      case 0
      with False show ?thesis by simp
    next
      case (Suc k)
      with Cons.prems False r nn have "k < nat (indexOf cs p)" by (simp add: Let_def)
      with Cons.IH r Suc show ?thesis by simp
    qed
  qed
qed

lemma indexOf_absent: "indexOf s p = - 1 \<Longrightarrow> \<not> prefix p (drop j s)"
proof (induction s arbitrary: j)
  case Nil
  then show ?case by (simp split: if_splits)
next
  case (Cons c cs)
  then have np: "\<not> prefix p (c # cs)" and r: "indexOf cs p = - 1"
    using indexOf_range [of cs p] by (auto simp: Let_def split: if_splits)
  show ?case
  proof (cases j)
    case 0
    with np show ?thesis by simp
  next
    case (Suc k)
    with Cons.IH r show ?thesis by simp
  qed
qed

lemma indexOf_eqI:
  "prefix p (drop i s) \<Longrightarrow> i \<le> length s \<Longrightarrow> (\<And>j. j < i \<Longrightarrow> \<not> prefix p (drop j s)) \<Longrightarrow>
   indexOf s p = int i"
proof -
  assume a: "prefix p (drop i s)" and b: "i \<le> length s" and c: "\<And>j. j < i \<Longrightarrow> \<not> prefix p (drop j s)"
  from a indexOf_absent [of s p i] have ne: "indexOf s p \<noteq> - 1" by blast
  with indexOf_range [of s p] have nn: "0 \<le> indexOf s p" by auto
  from ne have f: "prefix p (drop (nat (indexOf s p)) s)" by (rule indexOf_found)
  have "\<not> nat (indexOf s p) < i" using c f by blast
  moreover have "\<not> i < nat (indexOf s p)" using indexOf_least [OF ne] a by blast
  ultimately have "nat (indexOf s p) = i" by simp
  with nn show ?thesis by simp
qed

lemma js_includes_iff: "js_includes s p \<longleftrightarrow> (\<exists>j. prefix p (drop j s))"
  unfolding js_includes_def using indexOf_found indexOf_absent by blast

lemma js_includes_sublist: "js_includes s p \<longleftrightarrow> sublist p s"
proof
  assume "js_includes s p"
  then obtain j where "prefix p (drop j s)" by (auto simp: js_includes_iff)
  then obtain t where "drop j s = p @ t" by (auto simp: prefix_def)
  then have "s = take j s @ p @ t" by (metis append_take_drop_id)
  then show "sublist p s" unfolding sublist_def by blast
next
  assume "sublist p s"
  then obtain a b where "s = a @ p @ b" by (auto simp: sublist_def)
  then have "prefix p (drop (length a) s)" by simp
  then show "js_includes s p" by (auto simp: js_includes_iff)
qed

lemma substring_0: "0 \<le> i \<Longrightarrow> substring s 0 i = take (nat i) s"
  by (auto simp: substring_def Let_def max_def min_def)

lemma substring_from_drop: "0 \<le> i \<Longrightarrow> substring_from s i = drop (nat i) s"
  by (auto simp: substring_from_def substring_def Let_def max_def min_def)

lemma trim_ws_Cons: "isWhiteSpace c \<Longrightarrow> trim (c # s) = trim s"
  by (simp add: trim_def)

lemma join_lines_append2:
  "join sep (ls @ [a, b]) = concat (map (\<lambda>l. l @ sep) ls) @ a @ sep @ b"
proof (induction ls)
  case Nil
  show ?case by simp
next
  case (Cons l ls)
  then show ?case by (cases ls) simp_all
qed

lemma prefix_across_sep:
  "prefix p (xs @ c # ys) \<Longrightarrow> c \<notin> set p \<Longrightarrow> prefix p xs"
proof (induction xs arbitrary: p)
  case Nil
  then show ?case by (cases p) auto
next
  case (Cons x xs)
  then show ?case by (cases p) auto
qed

lemma no_occurrence_in_lines:
  assumes "c \<notin> set p" and "\<forall>l \<in> set ls. \<not> js_includes l p"
      and "j < length (concat (map (\<lambda>l. l @ [c]) ls))"
  shows "\<not> prefix p (drop j (concat (map (\<lambda>l. l @ [c]) ls) @ rest))"
  using assms(2,3)
proof (induction ls arbitrary: j)
  case Nil
  then show ?case by simp
next
  case (Cons l ls)
  define Y where "Y = concat (map (\<lambda>l. l @ [c]) ls) @ rest"
  have lines_eq: "concat (map (\<lambda>l. l @ [c]) (l # ls)) @ rest = l @ c # Y"
    by (simp add: Y_def)
  show ?case
  proof (cases "j \<le> length l")
    case True
    have "\<not> prefix p (drop j l)" using Cons.prems(1) by (auto simp: js_includes_iff)
    then have "\<not> prefix p (drop j l @ c # Y)"
      using prefix_across_sep [of p "drop j l" c Y] assms(1) by blast
    moreover from True have "drop j (l @ c # Y) = drop j l @ c # Y" by simp
    ultimately show ?thesis by (simp only: lines_eq not_False_eq_True)
  next
    case False
    then have "length l < j" by simp
    then obtain k where k: "j = Suc (length l + k)"
      using less_imp_Suc_add by blast
    with Cons.prems(2) have "k < length (concat (map (\<lambda>l. l @ [c]) ls))" by simp
    moreover from Cons.prems(1) have "\<forall>l \<in> set ls. \<not> js_includes l p" by simp
    ultimately have "\<not> prefix p (drop k Y)"
      unfolding Y_def using Cons.IH by blast
    moreover have "drop j (l @ c # Y) = drop k Y" by (simp add: k)
    ultimately show ?thesis by (simp only: lines_eq not_False_eq_True)
  qed
qed

lemma not_includes_bracketed:
  assumes "\<not> js_includes l p" and "p \<noteq> []" and "hd p \<noteq> a" and "last p \<noteq> b"
  shows "\<not> js_includes (a # l @ [b]) p"
proof
  assume "js_includes (a # l @ [b]) p"
  then obtain ps ss where e: "a # l @ [b] = ps @ p @ ss"
    by (auto simp: js_includes_sublist sublist_def)
  show False
  proof (cases ps)
    case Nil
    with e assms(2,3) show False by (cases p) auto
  next
    case (Cons x ps')
    with e have e2: "l @ [b] = ps' @ p @ ss" by simp
    show False
    proof (cases ss rule: rev_cases)
      case Nil
      with e2 have "l @ [b] = ps' @ p" by simp
      with assms(2) have "last p = b" by (metis last_appendR last_snoc)
      with assms(4) show False by simp
    next
      case (snoc ss' y)
      with e2 have "l @ [b] = (ps' @ p @ ss') @ [y]" by simp
      then have "l = ps' @ p @ ss'" by (simp only: append1_eq_conv)
      then have "js_includes l p" by (auto simp: js_includes_sublist sublist_def)
      with assms(1) show False by simp
    qed
  qed
qed

section \<open>Facts about the marker protocol\<close>

lemma js_newline: "js ''\<newline>'' = [0x0A]"
  by (simp add: js_def)

lemma header_nonempty: "MEMORY_HEADER \<noteq> []"
  by (simp add: MEMORY_HEADER_def js_def)

lemma footer_nonempty: "MEMORY_FOOTER \<noteq> []"
  by (simp add: MEMORY_FOOTER_def js_def)

lemma footer_length: "length MEMORY_FOOTER = 20"
  by (simp add: MEMORY_FOOTER_def js_def)

lemma newline_not_in_footer: "0x0A \<notin> set MEMORY_FOOTER"
  by (simp add: MEMORY_FOOTER_def js_def)

lemma footer_not_in_header: "\<not> js_includes MEMORY_HEADER MEMORY_FOOTER"
  by code_simp

lemma footer_not_in_default_label: "\<not> js_includes (js ''Memory'') MEMORY_FOOTER"
  by code_simp

lemma footer_ends: "hd MEMORY_FOOTER \<noteq> 0x5B \<and> last MEMORY_FOOTER \<noteq> 0x5D"
  by (simp add: MEMORY_FOOTER_def js_def)

lemma not_includes_Nil: "p \<noteq> [] \<Longrightarrow> \<not> js_includes [] p"
  by (simp add: js_includes_def)

lemma getInputValue_None:
  "getInputValue d None =
     (case getTextarea d None of None \<Rightarrow> [] | Some r \<Rightarrow> getInputValue d (Some r))"
  by (simp add: getInputValue_def split: option.splits)

lemma getContentWithoutMemories_header:
  "getContentWithoutMemories d MEMORY_HEADER =
     (let c = getInputValue d None; startIdx = indexOf c MEMORY_HEADER
      in trim (if startIdx \<noteq> - 1 then
                 (let endIdx = indexOf c MEMORY_FOOTER
                  in if endIdx \<noteq> - 1 \<and> endIdx > startIdx
                     then substring c 0 startIdx @
                          substring_from c (endIdx + int (length MEMORY_FOOTER))
                     else substring c 0 startIdx)
               else c))"
proof (cases "getTextarea d None")
  case None
  then have "getInputValue d None = []" by (simp add: getInputValue_None)
  with None show ?thesis
    by (simp add: getContentWithoutMemories_def header_nonempty trim_def)
next
  case (Some r)
  then have "getInputValue d None = getInputValue d (Some r)" by (simp add: getInputValue_None)
  with Some show ?thesis
    by (simp add: getContentWithoutMemories_def Let_def)
qed

lemma strip_no_header:
  "\<not> js_includes (getInputValue d None) MEMORY_HEADER \<Longrightarrow>
   getContentWithoutMemories d MEMORY_HEADER = trim (getInputValue d None)"
  by (simp add: getContentWithoutMemories_header js_includes_def Let_def)

lemma strip_truncate:
  assumes "indexOf (getInputValue d None) MEMORY_HEADER = int i"
      and "indexOf (getInputValue d None) MEMORY_FOOTER \<le> int i"
  shows "getContentWithoutMemories d MEMORY_HEADER = trim (take i (getInputValue d None))"
  using assms by (auto simp: getContentWithoutMemories_header Let_def substring_0)

lemma strip_span:
  assumes "indexOf (getInputValue d None) MEMORY_HEADER = int i"
      and "indexOf (getInputValue d None) MEMORY_FOOTER = int k" and "i < k"
  shows "getContentWithoutMemories d MEMORY_HEADER =
         trim (take i (getInputValue d None) @
               drop (k + length MEMORY_FOOTER) (getInputValue d None))"
  using assms
  by (simp add: getContentWithoutMemories_header Let_def substring_0 substring_from_drop nat_add_distrib)

lemma bracketed_label: "js ''['' @ l @ js '']'' = 0x5B # l @ [0x5D]"
  by (simp add: js_def)

lemma label_line_no_footer:
  assumes "\<not> js_includes (mb_label m) MEMORY_FOOTER"
  shows "\<not> js_includes (js ''['' @ or_else (mb_label m) (js ''Memory'') @ js '']'') MEMORY_FOOTER"
proof -
  have "\<not> js_includes (or_else (mb_label m) (js ''Memory'')) MEMORY_FOOTER"
    using assms footer_not_in_default_label by (simp add: or_else_def)
  then have "\<not> js_includes (0x5B # or_else (mb_label m) (js ''Memory'') @ [0x5D]) MEMORY_FOOTER"
    using footer_nonempty footer_ends
    by (intro not_includes_bracketed) simp_all
  then show ?thesis by (simp only: bracketed_label not_False_eq_True)
qed

lemma memoryLines_no_footer:
  assumes "\<not> js_includes (mb_label m) MEMORY_FOOTER" and "\<not> js_includes (mb_value m) MEMORY_FOOTER"
      and "l \<in> set (memoryLines m)"
  shows "\<not> js_includes l MEMORY_FOOTER"
proof -
  from assms(3) have "l = js ''['' @ or_else (mb_label m) (js ''Memory'') @ js '']'' \<or>
      l = mb_value m \<or> l = []"
    by (auto simp: memoryLines_def Let_def or_else_def split: if_splits)
  then show ?thesis
    using label_line_no_footer [OF assms(1)] assms(2) not_includes_Nil [OF footer_nonempty]
    by blast
qed

lemma format_shape:
  assumes "B \<noteq> []"
  shows "formatMemoriesForInjection B =
         concat (map (\<lambda>l. l @ [0x0A]) ([MEMORY_HEADER, []] @ concat (map memoryLines B))) @
         MEMORY_FOOTER @ [0x0A]"
proof -
  have "join [0x0A] (([MEMORY_HEADER, []] @ concat (map memoryLines B)) @ [MEMORY_FOOTER, []]) =
        concat (map (\<lambda>l. l @ [0x0A]) ([MEMORY_HEADER, []] @ concat (map memoryLines B))) @
        MEMORY_FOOTER @ [0x0A] @ []"
    by (rule join_lines_append2)
  with assms show ?thesis
    by (simp add: formatMemoriesForInjection_def js_newline)
qed

lemma strip_after_format:
  assumes B: "B \<noteq> []"
      and labels: "\<forall>m \<in> set B. \<not> js_includes (mb_label m) MEMORY_FOOTER \<and>
                                 \<not> js_includes (mb_value m) MEMORY_FOOTER"
      and content: "getInputValue d None = formatMemoriesForInjection B @ T"
  shows "getContentWithoutMemories d MEMORY_HEADER = trim T"
proof -
  let ?ls = "[MEMORY_HEADER, []] @ concat (map memoryLines B)"
  let ?pre = "concat (map (\<lambda>l. l @ [0x0A]) ?ls)"
  let ?rest = "MEMORY_FOOTER @ 0x0A # T"
  have c: "getInputValue d None = ?pre @ ?rest"
    using content format_shape [OF B] by simp
  have "prefix MEMORY_HEADER (?pre @ ?rest)" by simp
  then have start: "indexOf (?pre @ ?rest) MEMORY_HEADER = int 0"
    by (simp add: indexOf_prefix)
  have lines: "\<forall>l \<in> set ?ls. \<not> js_includes l MEMORY_FOOTER"
  proof
    fix l assume "l \<in> set ?ls"
    then consider "l = MEMORY_HEADER" | "l = []"
      | m where "m \<in> set B" and "l \<in> set (memoryLines m)"
      by auto
    then show "\<not> js_includes l MEMORY_FOOTER"
    proof cases
      case 1
      then show ?thesis by (simp only: footer_not_in_header not_False_eq_True)
    next
      case 2
      then show ?thesis using not_includes_Nil [OF footer_nonempty] by simp
    next
      case 3
      with labels show ?thesis using memoryLines_no_footer [of m l] by blast
    qed
  qed
  have "indexOf (?pre @ ?rest) MEMORY_FOOTER = int (length ?pre)"
  proof (rule indexOf_eqI)
    show "prefix MEMORY_FOOTER (drop (length ?pre) (?pre @ ?rest))" by simp
    show "length ?pre \<le> length (?pre @ ?rest)" by simp
    fix j assume "j < length ?pre"
    with lines show "\<not> prefix MEMORY_FOOTER (drop j (?pre @ ?rest))"
      using no_occurrence_in_lines [OF newline_not_in_footer, of ?ls j ?rest] by blast
  qed
  moreover have "0 < length ?pre" by simp
  ultimately have "getContentWithoutMemories d MEMORY_HEADER =
      trim (take 0 (?pre @ ?rest) @ drop (length ?pre + length MEMORY_FOOTER) (?pre @ ?rest))"
    using strip_span [of d 0 "length ?pre"] start c by simp
  also have "\<dots> = trim (0x0A # T)" by simp
  also have "\<dots> = trim T" by (rule trim_ws_Cons) (simp add: isWhiteSpace_def)
  finally show ?thesis .
qed

section \<open>The example page\<close>

lemma textareaPage_platform: "detectPlatform (textareaPage v) = Some chatgpt"
proof -
  have "js_includes (js ''chatgpt.com'') (js ''chatgpt.com'')" by code_simp
  then show ?thesis by (simp add: detectPlatform_def textareaPage_def)
qed

lemma textareaElement_visible: "isVisible (textareaElement v)"
  by (simp add: isVisible_def textareaElement_def js_def)

lemma textareaPage_locate: "fst (locate (textareaPage v) (TEXTAREA_SELECTORS chatgpt)) = Some 0"
proof -
  have "candidate (textareaPage v) (js ''#prompt-textarea'') = Some 0"
    using textareaElement_visible by (simp add: candidate_def textareaPage_def)
  then show ?thesis by simp
qed

lemma textareaPage_editor: "getTextarea (textareaPage v) None = Some 0"
  by (simp add: getTextarea_def textareaPage_platform textareaPage_locate
        del: TEXTAREA_SELECTORS.simps locate.simps)

lemma textareaPage_editor': "getTextarea (textareaPage v) (Some chatgpt) = Some 0"
  by (simp add: getTextarea_def textareaPage_locate del: TEXTAREA_SELECTORS.simps locate.simps)

lemma textareaElement_tag: "toLowerCase (tagName (textareaElement v)) = js ''textarea''"
  by (simp add: toLowerCase_def textareaElement_def js_def)

lemma textareaPage_content: "getInputValue (textareaPage v) None = v"
proof -
  have "elems (textareaPage v) 0 = textareaElement v" by (simp add: textareaPage_def)
  moreover have "js ''textarea'' \<noteq> js ''p''" by (simp add: js_def)
  moreover have "\<not> isContentEditable (textareaElement v)"
    by (simp add: isContentEditable_def textareaElement_def js_def)
  moreover have "classList (textareaElement v) = []" "el_value (textareaElement v) = v"
    by (simp_all add: textareaElement_def)
  ultimately show ?thesis
    by (simp add: getInputValue_def textareaPage_editor textareaElement_tag Let_def or_else_def)
qed

section \<open>Facts about injection\<close>

lemma getTextarea_detected:
  "detectPlatform d = Some p \<Longrightarrow> getTextarea d (Some p) = getTextarea d None"
  by (simp add: getTextarea_def)


lemma getInputValue_editor:
  "getTextarea d None = Some el \<Longrightarrow> getInputValue d (Some el) = getInputValue d None"
  by (simp add: getInputValue_None)

lemma doc_loaded: "doc (loaded d) = d"
  by (simp add: loaded_def)

lemma injected_loaded: "injectedMemoryIds (loaded d) = {}"
  by (simp add: loaded_def)







section \<open>Facts about the locator\<close>

lemma candidate_Some_iff:
  "candidate d s = Some el \<longleftrightarrow> querySelector d s = Result (Some el) \<and> isVisible (elems d el)"
  by (auto simp: candidate_def split: query.splits option.splits)

lemma candidate_None_iff:
  "candidate d s = None \<longleftrightarrow>
   \<not> (\<exists>e. querySelector d s = Result (Some e) \<and> isVisible (elems d e))"
  by (auto simp: candidate_def split: query.splits option.splits)

lemma locate_None:
  "fst (locate d sels) = None \<Longrightarrow>
   (\<forall>s \<in> set sels. candidate d s = None) \<and> snd (locate d sels) = sels"
  by (induction sels) (auto split: option.splits prod.splits)

lemma locate_Some:
  "fst (locate d sels) = Some el \<Longrightarrow>
   \<exists>i<length sels. candidate d (sels ! i) = Some el \<and> (\<forall>j<i. candidate d (sels ! j) = None) \<and>
       snd (locate d sels) = take (Suc i) sels"
proof (induction sels)
  case Nil
  then show ?case by simp
next
  case (Cons s sels)
  show ?case
  proof (cases "candidate d s")
    case (Some e)
    with Cons.prems have "e = el" by simp
    with Some have "candidate d ((s # sels) ! 0) = Some el \<and>
        (\<forall>j<0. candidate d ((s # sels) ! j) = None) \<and>
        snd (locate d (s # sels)) = take (Suc 0) (s # sels)"
      by simp
    then show ?thesis by blast
  next
    case None
    with Cons.prems have "fst (locate d sels) = Some el" by (cases "locate d sels") simp
    with Cons.IH obtain i where i: "i < length sels" "candidate d (sels ! i) = Some el"
        "\<forall>j<i. candidate d (sels ! j) = None" "snd (locate d sels) = take (Suc i) sels"
      by blast
    have "\<forall>j<Suc i. candidate d ((s # sels) ! j) = None"
    proof (intro allI impI)
      fix j assume "j < Suc i"
      with None i(3) show "candidate d ((s # sels) ! j) = None" by (cases j) auto
    qed
    moreover from None i(4) have "snd (locate d (s # sels)) = take (Suc (Suc i)) (s # sels)"
      by (cases "locate d sels") simp
    ultimately have "Suc i < length (s # sels) \<and> candidate d ((s # sels) ! Suc i) = Some el \<and>
        (\<forall>j<Suc i. candidate d ((s # sels) ! j) = None) \<and>
        snd (locate d (s # sels)) = take (Suc (Suc i)) (s # sels)"
      using i(1,2) by simp
    then show ?thesis by blast
  qed
qed

lemma fallbackPage_candidates:
  \<open>candidate fallbackPage (js ''#prompt-textarea'') = None\<close>
  \<open>candidate fallbackPage (js ''div[contenteditable="true"][data-id="root"]'') = None\<close>
  \<open>candidate fallbackPage (js ''div[contenteditable="true"]'') = Some 4\<close>
proof -
  have ne: \<open>js ''div[contenteditable="true"][data-id="root"]'' \<noteq> js ''#prompt-textarea''\<close>
    \<open>js ''div[contenteditable="true"]'' \<noteq> js ''#prompt-textarea''\<close>
    \<open>js ''div[contenteditable="true"]'' \<noteq> js ''div[contenteditable="true"][data-id="root"]''\<close>
    by (simp_all add: js_def)
  have h: "\<not> isVisible ((textareaElement [])\<lparr>style_display := js ''none''\<rparr>)"
    by (simp add: isVisible_def)
  show \<open>candidate fallbackPage (js ''#prompt-textarea'') = None\<close>
    using h by (simp add: candidate_def fallbackPage_def)
  show \<open>candidate fallbackPage (js ''div[contenteditable="true"][data-id="root"]'') = None\<close>
    using ne by (simp add: candidate_def fallbackPage_def)
  show \<open>candidate fallbackPage (js ''div[contenteditable="true"]'') = Some 4\<close>
    using ne textareaElement_visible by (simp add: candidate_def fallbackPage_def)
qed

section \<open>Facts about the service worker\<close>






lemma settings_never_waits_again:
  "fst (handleSyncSettings b now payload settings) \<noteq> AwaitSettings n p"
  by (auto simp: handleSyncSettings_def Let_def split: option.splits)









section \<open>Facts about message capture\<close>

lemma slice_from_last: "0 \<le> n \<Longrightarrow> n \<noteq> 0 \<Longrightarrow> slice_from xs (- n) = drop (length xs - nat n) xs"
  by (auto simp: slice_from_def slice_def Let_def max_def nat_diff_distrib)

lemma slice_take: "0 \<le> n \<Longrightarrow> slice xs 0 n = take (nat n) xs"
  by (auto simp: slice_def Let_def min_def)

lemma recentElements_eq:
  "recentElements w 2 =
     (let allSorted =
            (case platform_var w of
               None \<Rightarrow> []
             | Some p \<Rightarrow>
                 sort_key (\<lambda>(el, r). position (elems (doc w) el))
                   (map (\<lambda>el. (el, js ''user''))
                        (querySelectorAll (doc w) (fst (MESSAGE_SELECTORS p))) @
                    map (\<lambda>el. (el, js ''assistant''))
                        (querySelectorAll (doc w) (snd (MESSAGE_SELECTORS p)))))
      in drop (length allSorted - 2) allSorted)"
  by (simp add: recentElements_def Let_def slice_from_last split: option.splits)

lemma getRecentMessages_eq:
  "getRecentMessages w n =
     map (\<lambda>(el, r). \<lparr>role = r, content = take 500 (trim (textContent (elems (doc w) el)))\<rparr>)
       (filter (\<lambda>(el, r). trim (textContent (elems (doc w) el)) \<noteq> []) (recentElements w n))"
proof -
  have "concat (map (\<lambda>(el, r).
                    (let c = or_else (trim (textContent (elems (doc w) el))) []
                     in if c \<noteq> [] then [\<lparr>role = r, content = slice c 0 500\<rparr>] else [])) xs) =
     map (\<lambda>(el, r). \<lparr>role = r, content = take 500 (trim (textContent (elems (doc w) el)))\<rparr>)
       (filter (\<lambda>(el, r). trim (textContent (elems (doc w) el)) \<noteq> []) xs)" for xs
    by (induction xs) (auto simp: or_else_def Let_def slice_take)
  then show ?thesis by (simp add: getRecentMessages_def)
qed

lemma captureAndSync_sent:
  "sent (captureAndSync now w) = sent w \<or>
   (\<exists>m. sent (captureAndSync now w) =
          sent w @ [\<lparr>userMessage = m, recentContext = getRecentMessages w 2,
                     timestamp = now, url = href (doc w)\<rparr>])"
  by (simp add: captureAndSync_def syncToBackground_def Let_def)

lemma chatPage_recent:
  "getRecentMessages (loaded chatPage) 2 =
     [\<lparr>role = js ''assistant'', content = replicate 500 0x61\<rparr>,
      \<lparr>role = js ''user'', content = js ''second question''\<rparr>]"
  by code_simp

section \<open>Facts about the overlay\<close>

lemma controlPresent_iff: "controlPresent d \<longleftrightarrow> overlay d \<noteq> []"
proof -
  have "js ''letta-floating-container'' \<noteq> js ''letta-icon-button''" by (simp add: js_def)
  moreover have "js ''letta-floating-container'' \<noteq> []" by (simp add: js_def)
  ultimately show ?thesis
    by (auto simp: controlPresent_def getElementById_def find_None_iff split: list.splits)
qed

lemma mountAt_eq:
  "mountAt w pl =
     (True, w\<lparr>doc := (doc w)\<lparr>created := Suc (created (doc w)),
                            overlay := overlay (doc w) @
                              [\<lparr>wid = created (doc w), root_id = [], has_cleanup = False,
                                placed = pl\<rparr>]\<rparr>,
               buttonHost := Some \<lparr>wid = created (doc w), root_id = [], has_cleanup = False,
                                  placed = pl\<rparr>\<rparr>)"
  by (simp add: mountAt_def createLettaButton_def Let_def)

lemma mountFloating_eq:
  "mountFloating w =
     (True, w\<lparr>doc := (doc w)\<lparr>created := Suc (created (doc w)),
                            overlay := overlay (doc w) @
                              [\<lparr>wid = created (doc w), root_id = js ''letta-floating-container'',
                                has_cleanup = True, placed = AppendToBody\<rparr>],
                            windowListeners := windowListeners (doc w) @
                              [(js ''scroll'', created (doc w)), (js ''resize'', created (doc w))]\<rparr>,
               buttonHost := Some \<lparr>wid = created (doc w),
                                  root_id = js ''letta-floating-container'',
                                  has_cleanup = True, placed = AppendToBody\<rparr>\<rparr>)"
  by (simp add: mountFloating_def createLettaButton_def Let_def)

lemma placedOne_mountAt: "placedOne w (mountAt w pl)"
  unfolding placedOne_def mountAt_eq
  by (rule exI [of _ "\<lparr>wid = created (doc w), root_id = [], has_cleanup = False, placed = pl\<rparr>"],
      rule exI [of _ "[]"]) simp

lemma placedOne_mountFloating: "placedOne w (mountFloating w)"
  unfolding placedOne_def mountFloating_eq
  by (rule exI [of _ "\<lparr>wid = created (doc w), root_id = js ''letta-floating-container'',
                       has_cleanup = True, placed = AppendToBody\<rparr>"],
      rule exI [of _ "[(js ''scroll'', created (doc w)), (js ''resize'', created (doc w))]"]) simp

lemma strategy_chatgpt: "mountChatGPTButton w = (False, w) \<or> placedOne w (mountChatGPTButton w)"
  by (auto simp: mountChatGPTButton_def Let_def placedOne_mountAt split: option.splits)

lemma strategy_claude: "mountClaudeButton w = (False, w) \<or> placedOne w (mountClaudeButton w)"
  by (auto simp: mountClaudeButton_def Let_def placedOne_mountAt split: option.splits)

lemma strategy_gemini: "mountGeminiButton w = (False, w) \<or> placedOne w (mountGeminiButton w)"
  by (auto simp: mountGeminiButton_def Let_def placedOne_mountAt split: option.splits)

lemma strategy_perplexity:
  "mountPerplexityButton w = (False, w) \<or> placedOne w (mountPerplexityButton w)"
  by (auto simp: mountPerplexityButton_def Let_def placedOne_mountAt placedOne_mountFloating
      split: option.splits)

lemma strategy_generic: "mountGenericButton w = (False, w) \<or> placedOne w (mountGenericButton w)"
  by (auto simp: mountGenericButton_def Let_def placedOne_mountAt split: option.splits)

lemma strategy_cases: "mountForPlatform w = (False, w) \<or> placedOne w (mountForPlatform w)"
  using strategy_chatgpt strategy_claude strategy_gemini strategy_perplexity strategy_generic
  by (simp add: mountForPlatform_def split: option.splits platform.splits)

lemma mountAt_succeeds: "mountAt w pl \<noteq> (False, w')"
  by (simp add: mountAt_eq)

lemma mountFloating_succeeds: "mountFloating w \<noteq> (False, w')"
  by (simp add: mountFloating_eq)

lemma placedOne_succeeds: "placedOne w r \<Longrightarrow> fst r"
  by (auto simp: placedOne_def)

lemma fails_again_chatgpt:
  "mountChatGPTButton w = (False, w) \<Longrightarrow> doc w' = doc w \<Longrightarrow> mountChatGPTButton w' = (False, w')"
  by (auto simp: mountChatGPTButton_def Let_def mountAt_succeeds split: option.splits if_splits)

lemma fails_again_claude:
  "mountClaudeButton w = (False, w) \<Longrightarrow> doc w' = doc w \<Longrightarrow> mountClaudeButton w' = (False, w')"
  by (auto simp: mountClaudeButton_def Let_def mountAt_succeeds split: option.splits if_splits)

lemma fails_again_gemini:
  "mountGeminiButton w = (False, w) \<Longrightarrow> doc w' = doc w \<Longrightarrow> platform_var w' = platform_var w \<Longrightarrow>
   mountGeminiButton w' = (False, w')"
  by (auto simp: mountGeminiButton_def Let_def mountAt_succeeds split: option.splits if_splits)

lemma fails_again_perplexity:
  "mountPerplexityButton w = (False, w) \<Longrightarrow> doc w' = doc w \<Longrightarrow>
   mountPerplexityButton w' = (False, w')"
  by (auto simp: mountPerplexityButton_def Let_def mountAt_succeeds mountFloating_succeeds
      split: option.splits if_splits)

lemma fails_again_generic:
  "mountGenericButton w = (False, w) \<Longrightarrow> doc w' = doc w \<Longrightarrow> platform_var w' = platform_var w \<Longrightarrow>
   mountGenericButton w' = (False, w')"
  by (auto simp: mountGenericButton_def Let_def mountAt_succeeds split: option.splits if_splits)

lemma fails_again:
  assumes "mountForPlatform w = (False, w)" and "doc w' = doc w"
      and "platform_var w' = platform_var w"
  shows "mountForPlatform w' = (False, w')"
proof (cases "platform_var w")
  case None
  with assms show ?thesis by (simp add: mountForPlatform_def fails_again_generic)
next
  case (Some p)
  with assms show ?thesis
    by (cases p)
       (simp_all add: mountForPlatform_def fails_again_chatgpt fails_again_claude
          fails_again_gemini fails_again_perplexity)
qed

lemma floating_of_empty: "overlay d = [] \<Longrightarrow> getElementById d i = None"
  by (simp add: getElementById_def)

lemma removeUI_buttonHost: "buttonHost (removeUI w) = None"
  by (simp add: removeUI_def Let_def split: option.splits)

lemma removeUI_frame:
  "timeouts (removeUI w) = timeouts w \<and> platform_var (removeUI w) = platform_var w \<and>
   injectedMemoryIds (removeUI w) = injectedMemoryIds w \<and> lastUrl (removeUI w) = lastUrl w \<and>
   buttonWatcherStarted (removeUI w) = buttonWatcherStarted w \<and> sent (removeUI w) = sent w"
  by (simp add: removeUI_def Let_def split: option.splits)

lemma removeUI_overlay_empty: "overlay (doc w) = [] \<Longrightarrow> overlay (doc (removeUI w)) = []"
  by (simp add: removeUI_def Let_def floating_of_empty runCleanup_def removeNode_def isConnected_def
      split: option.splits)

lemma removeUI_overlay_tracked:
  assumes "tracked w"
  shows "overlay (doc (removeUI w)) = []"
proof (cases "overlay (doc w)")
  case Nil
  then show ?thesis by (rule removeUI_overlay_empty)
next
  case (Cons x xs)
  with assms have xs: "xs = []" and b: "buttonHost w = Some x"
    by (simp_all add: tracked_def split: list.splits)
  from Cons xs b show ?thesis
    by (simp add: removeUI_def Let_def getElementById_def runCleanup_def removeNode_def
        isConnected_def js_def split: option.splits)
qed

lemma removeUI_discharges:
  assumes "buttonHost w = Some x" and "has_cleanup x"
  shows "\<forall>(ev, owner) \<in> set (windowListeners (doc (removeUI w))). owner \<noteq> wid x"
  using assms
  by (auto simp: removeUI_def Let_def runCleanup_def removeNode_def split: option.splits)

lemma tracked_removeUI: "tracked w \<Longrightarrow> tracked (removeUI w)"
  using removeUI_overlay_tracked [of w] by (simp add: tracked_def)

lemma mount_present: "controlPresent (doc w) \<Longrightarrow> mountButtonOnEditor w = w"
  by (simp add: mountButtonOnEditor_def)

lemma mount_after_strategy:
  assumes "\<not> controlPresent (doc w)"
      and "w1 = (if buttonHost w \<noteq> None then removeUI w else w)"
      and "mountForPlatform w1 = (s, w2)"
  shows "mountButtonOnEditor w =
           (let w3 = (if \<not> s then w2\<lparr>timeouts := timeouts w2 @ [(1000, MountTask)]\<rparr> else w2)
            in if \<not> buttonWatcherStarted w3
               then startButtonWatcher (w3\<lparr>buttonWatcherStarted := True\<rparr>)
               else w3)"
proof (cases "buttonHost w")
  case None
  with assms(2) have "w1 = w" by simp
  with assms(1,3) None show ?thesis by (simp add: mountButtonOnEditor_def Let_def)
next
  case (Some b)
  with assms(2) have "w1 = removeUI w" by simp
  with assms(1,3) Some show ?thesis by (simp add: mountButtonOnEditor_def Let_def)
qed

lemma mount_failed:
  assumes "\<not> controlPresent (doc w)"
      and "mountForPlatform (if buttonHost w \<noteq> None then removeUI w else w) =
             (False, if buttonHost w \<noteq> None then removeUI w else w)"
  shows "doc (mountButtonOnEditor w) = doc (if buttonHost w \<noteq> None then removeUI w else w) \<and>
         buttonHost (mountButtonOnEditor w) = None \<and>
         platform_var (mountButtonOnEditor w) = platform_var w \<and>
         timeouts (mountButtonOnEditor w) = timeouts w @ [(1000, MountTask)]"
proof (cases "buttonHost w")
  case None
  with assms show ?thesis
    by (simp add: mountButtonOnEditor_def Let_def startButtonWatcher_def)
next
  case (Some b)
  with assms removeUI_frame [of w] removeUI_buttonHost [of w] show ?thesis
    by (simp add: mountButtonOnEditor_def Let_def startButtonWatcher_def)
qed

lemma mount_placed:
  assumes "\<not> controlPresent (doc w)"
      and "placedOne (if buttonHost w \<noteq> None then removeUI w else w)
             (mountForPlatform (if buttonHost w \<noteq> None then removeUI w else w))"
  shows "\<exists>x. overlay (doc (mountButtonOnEditor w)) = [x] \<and>
             buttonHost (mountButtonOnEditor w) = Some x \<and>
             timeouts (mountButtonOnEditor w) = timeouts w"
proof -
  define w1 where "w1 = (if buttonHost w \<noteq> None then removeUI w else w)"
  from assms(1) have "overlay (doc w) = []" by (simp add: controlPresent_iff)
  then have e: "overlay (doc w1) = []" by (simp add: w1_def removeUI_overlay_empty)
  have t: "timeouts w1 = timeouts w" using removeUI_frame [of w] by (simp add: w1_def)
  from assms(2) obtain x wl where
    m: "mountForPlatform w1 =
          (True, w1\<lparr>doc := (doc w1)\<lparr>created := Suc (created (doc w1)),
                                     overlay := overlay (doc w1) @ [x],
                                     windowListeners := windowListeners (doc w1) @ wl\<rparr>,
                    buttonHost := Some x\<rparr>)"
    unfolding placedOne_def w1_def by blast
  have "overlay (doc (mountButtonOnEditor w)) = [x] \<and>
        buttonHost (mountButtonOnEditor w) = Some x \<and>
        timeouts (mountButtonOnEditor w) = timeouts w"
    using e t by (simp add: mount_after_strategy [OF assms(1) w1_def m] Let_def startButtonWatcher_def)
  then show ?thesis by blast
qed

lemma mount_outcome:
  assumes "\<not> controlPresent (doc w)"
  shows "(\<not> controlPresent (doc (mountButtonOnEditor w)) \<and>
          overlay (doc (mountButtonOnEditor w)) = [] \<and>
          buttonHost (mountButtonOnEditor w) = None \<and>
          timeouts (mountButtonOnEditor w) = timeouts w @ [(1000, MountTask)] \<and>
          mountForPlatform (mountButtonOnEditor w) = (False, mountButtonOnEditor w)) \<or>
         (\<exists>x. overlay (doc (mountButtonOnEditor w)) = [x] \<and>
              buttonHost (mountButtonOnEditor w) = Some x \<and>
              timeouts (mountButtonOnEditor w) = timeouts w)"
proof -
  let ?w1 = "if buttonHost w \<noteq> None then removeUI w else w"
  from assms have "overlay (doc w) = []" by (simp add: controlPresent_iff)
  then have e: "overlay (doc ?w1) = []" by (simp add: removeUI_overlay_empty)
  from strategy_cases [of ?w1] show ?thesis
  proof
    assume f: "mountForPlatform ?w1 = (False, ?w1)"
    note mf = mount_failed [OF assms f]
    from mf e have "overlay (doc (mountButtonOnEditor w)) = []" by simp
    moreover from this have "\<not> controlPresent (doc (mountButtonOnEditor w))"
      by (simp add: controlPresent_iff)
    moreover have "mountForPlatform (mountButtonOnEditor w) = (False, mountButtonOnEditor w)"
    proof (rule fails_again [OF f])
      show "doc (mountButtonOnEditor w) = doc ?w1" using mf by simp
      show "platform_var (mountButtonOnEditor w) = platform_var ?w1"
        using mf removeUI_frame [of w] by simp
    qed
    ultimately show ?thesis using mf by simp
  next
    assume "placedOne ?w1 (mountForPlatform ?w1)"
    from mount_placed [OF assms this] show ?thesis by blast
  qed
qed

lemma mount_twice_doc: "doc (mountButtonOnEditor (mountButtonOnEditor w)) = doc (mountButtonOnEditor w)"
proof (cases "controlPresent (doc w)")
  case True
  then show ?thesis by (simp add: mount_present)
next
  case False
  from mount_outcome [OF False] show ?thesis
  proof (elim disjE conjE exE)
    assume a: "\<not> controlPresent (doc (mountButtonOnEditor w))"
       and b: "buttonHost (mountButtonOnEditor w) = None"
       and f: "mountForPlatform (mountButtonOnEditor w) = (False, mountButtonOnEditor w)"
    from b f have "mountForPlatform (if buttonHost (mountButtonOnEditor w) \<noteq> None
                      then removeUI (mountButtonOnEditor w) else mountButtonOnEditor w) =
                   (False, if buttonHost (mountButtonOnEditor w) \<noteq> None
                      then removeUI (mountButtonOnEditor w) else mountButtonOnEditor w)"
      by simp
    from mount_failed [OF a this] b show ?thesis by simp
  next
    fix x assume "overlay (doc (mountButtonOnEditor w)) = [x]"
    then have "controlPresent (doc (mountButtonOnEditor w))" by (simp add: controlPresent_iff)
    then show ?thesis by (simp add: mount_present)
  qed
qed

lemma tracked_mount: "tracked w \<Longrightarrow> tracked (mountButtonOnEditor w)"
proof (cases "controlPresent (doc w)")
  case True
  assume "tracked w"
  with True show ?thesis by (simp add: mount_present)
next
  case False
  from mount_outcome [OF False] show ?thesis by (auto simp: tracked_def)
qed

lemma tracked_loaded: "overlay d = [] \<Longrightarrow> tracked (loaded d)"
  by (simp add: tracked_def loaded_def)

lemma tracked_host_removal: "tracked (w\<lparr>doc := (doc w)\<lparr>overlay := []\<rparr>\<rparr>)"
  by (simp add: tracked_def)

lemma mount_count:
  assumes "tracked w"
  shows "length (overlay (doc (mountButtonOnEditor w))) =
         (if controlPresent (doc (mountButtonOnEditor w)) then 1 else 0)"
proof -
  from assms have "tracked (mountButtonOnEditor w)" by (rule tracked_mount)
  then show ?thesis
    by (auto simp: tracked_def controlPresent_iff split: list.splits)
qed

lemma mount_retry:
  assumes "\<not> controlPresent (doc (mountButtonOnEditor w))"
  shows "timeouts (mountButtonOnEditor w) = timeouts w @ [(1000, MountTask)]"
proof -
  from assms have "\<not> controlPresent (doc w)" using mount_present [of w] by auto
  from mount_outcome [OF this] assms show ?thesis by (auto simp: controlPresent_iff)
qed

lemma addSendListeners_frame:
  "overlay (doc (addSendListeners w)) = overlay (doc w) \<and>
   timeouts (addSendListeners w) = timeouts w"
  by (simp add: addSendListeners_def Let_def split: option.splits)

lemma tick_changed:
  "href (doc w) \<noteq> lastUrl w \<Longrightarrow>
   urlMonitorTick w =
     (resetInjectionState (removeUI (w\<lparr>lastUrl := href (doc w)\<rparr>)))
       \<lparr>timeouts := timeouts w @ [(500, RemountTask)]\<rparr>"
  using removeUI_frame [of "w\<lparr>lastUrl := href (doc w)\<rparr>"]
  by (simp add: urlMonitorTick_def Let_def resetInjectionState_def)

lemma composer_mounted:
  "overlay (doc (mountButtonOnEditor (loaded composerPage))) =
     [\<lparr>wid = 0, root_id = [], has_cleanup = False, placed = InsertBefore 2\<rparr>]"
  by code_simp

lemma navigated_composer:
  "href (doc (navigated (mountButtonOnEditor (loaded composerPage)))) \<noteq>
     lastUrl (navigated (mountButtonOnEditor (loaded composerPage)))"
  "buttonHost (navigated (mountButtonOnEditor (loaded composerPage))) =
     Some \<lparr>wid = 0, root_id = [], has_cleanup = False, placed = InsertBefore 2\<rparr>"
  "overlay (doc (navigated (mountButtonOnEditor (loaded composerPage)))) =
     [\<lparr>wid = 0, root_id = [], has_cleanup = False, placed = InsertBefore 2\<rparr>]"
  "mutationObserver (navigated (mountButtonOnEditor (loaded composerPage)))"
  by code_simp+

lemma remounted_after_delay:
  "overlay (doc (runTask 0 RemountTask
      (urlMonitorTick (navigated (mountButtonOnEditor (loaded composerPage)))))) =
     [\<lparr>wid = 1, root_id = [], has_cleanup = False, placed = InsertBefore 2\<rparr>]"
  by code_simp

section \<open>The claims\<close>

text \<open>
  Claim C6. When the editor content holds the header, first at the end of \<open>pre\<close>, and
  the footer occurs nowhere after the position of that header, \<open>stripOut\<close>
  (\<open>getContentWithoutMemories\<close> with the standard header) returns the trimmed text
  before the header: everything from the header on is cut. The function has no failing
  branch: its result is a string in every case.
\<close>

theorem strip_truncates_malformed:
  assumes content: "getInputValue d None = pre @ MEMORY_HEADER @ rest"
      and first: "indexOf (pre @ MEMORY_HEADER @ rest) MEMORY_HEADER = int (length pre)"
      and nofooter: "\<not> js_includes (drop (Suc (length pre)) (pre @ MEMORY_HEADER @ rest)) MEMORY_FOOTER"
  shows "getContentWithoutMemories d MEMORY_HEADER = trim pre"
proof -
  let ?c = "pre @ MEMORY_HEADER @ rest"
  have "indexOf ?c MEMORY_FOOTER \<le> int (length pre)"
  proof (rule ccontr)
    assume "\<not> indexOf ?c MEMORY_FOOTER \<le> int (length pre)"
    then have gt: "int (length pre) < indexOf ?c MEMORY_FOOTER" by simp
    then have ne: "indexOf ?c MEMORY_FOOTER \<noteq> - 1" by simp
    from gt obtain k where k: "nat (indexOf ?c MEMORY_FOOTER) = Suc (length pre) + k"
      by (metis add_Suc less_imp_Suc_add zless_nat_eq_int_zless)
    from indexOf_found [OF ne] have "prefix MEMORY_FOOTER (drop (Suc (length pre) + k) ?c)"
      by (simp only: k)
    then have "prefix MEMORY_FOOTER (drop k (drop (Suc (length pre)) ?c))"
      by (simp only: drop_drop add.commute)
    then have "js_includes (drop (Suc (length pre)) ?c) MEMORY_FOOTER"
      unfolding js_includes_iff by blast
    with nofooter show False by simp
  qed
  with first content have "getContentWithoutMemories d MEMORY_HEADER = trim (take (length pre) ?c)"
    using strip_truncate [of d "length pre"] by simp
  then show ?thesis by simp
qed

theorem strip_truncates_malformed_witness:
  "getInputValue (textareaPage (js ''hi '' @ MEMORY_HEADER @ js ''\<newline>[facts]\<newline>Uses'')) None =
     js ''hi '' @ MEMORY_HEADER @ js ''\<newline>[facts]\<newline>Uses'' \<and>
   indexOf (js ''hi '' @ MEMORY_HEADER @ js ''\<newline>[facts]\<newline>Uses'') MEMORY_HEADER =
     int (length (js ''hi '')) \<and>
   \<not> js_includes (drop (Suc (length (js ''hi '')))
        (js ''hi '' @ MEMORY_HEADER @ js ''\<newline>[facts]\<newline>Uses'')) MEMORY_FOOTER \<and>
   getContentWithoutMemories
     (textareaPage (js ''hi '' @ MEMORY_HEADER @ js ''\<newline>[facts]\<newline>Uses'')) MEMORY_HEADER = js ''hi''"
proof -
  let ?pre = "js ''hi ''" and ?rest = "js ''\<newline>[facts]\<newline>Uses''"
  have h1: "getInputValue (textareaPage (?pre @ MEMORY_HEADER @ ?rest)) None =
            ?pre @ MEMORY_HEADER @ ?rest"
    by (rule textareaPage_content)
  have h2: "indexOf (?pre @ MEMORY_HEADER @ ?rest) MEMORY_HEADER = int (length ?pre)"
    by code_simp
  have h3: "\<not> js_includes (drop (Suc (length ?pre)) (?pre @ MEMORY_HEADER @ ?rest)) MEMORY_FOOTER"
    by code_simp
  have t: "trim ?pre = js ''hi''" by code_simp
  from strip_truncates_malformed [OF h1 h2 h3] h1 h2 h3 t show ?thesis by simp
qed

text \<open>
  Claim C1. For blocks \<open>B\<close> whose labels and values contain neither marker, and a user
  text \<open>T\<close> that contains neither marker, stripping the markers from an editor that
  reads \<open>formatMemoriesForInjection B @ T\<close> returns \<open>trim T\<close>.
\<close>

theorem strip_splice_roundtrip:
  assumes "\<forall>m \<in> set B. \<not> js_includes (mb_label m) MEMORY_HEADER \<and>
                          \<not> js_includes (mb_label m) MEMORY_FOOTER \<and>
                          \<not> js_includes (mb_value m) MEMORY_HEADER \<and>
                          \<not> js_includes (mb_value m) MEMORY_FOOTER"
      and "\<not> js_includes T MEMORY_HEADER" and "\<not> js_includes T MEMORY_FOOTER"
      and "getInputValue d None = formatMemoriesForInjection B @ T"
  shows "getContentWithoutMemories d MEMORY_HEADER = trim T"
proof (cases "B = []")
  case True
  with assms(4) have "getInputValue d None = T" by (simp add: formatMemoriesForInjection_def)
  with assms(2) show ?thesis using strip_no_header [of d] by simp
next
  case False
  with assms(1,4) show ?thesis using strip_after_format [of B d T] by blast
qed

theorem strip_splice_roundtrip_witness:
  "\<not> js_includes (mb_label factsBlock) MEMORY_HEADER \<and>
   \<not> js_includes (mb_label factsBlock) MEMORY_FOOTER \<and>
   \<not> js_includes (mb_value factsBlock) MEMORY_HEADER \<and>
   \<not> js_includes (mb_value factsBlock) MEMORY_FOOTER \<and>
   \<not> js_includes (js '' hello there\<newline>'') MEMORY_HEADER \<and>
   \<not> js_includes (js '' hello there\<newline>'') MEMORY_FOOTER \<and>
   getContentWithoutMemories
     (textareaPage (formatMemoriesForInjection [factsBlock] @ js '' hello there\<newline>''))
     MEMORY_HEADER = js ''hello there''"
proof -
  let ?T = "js '' hello there\<newline>''"
  have l1: "\<not> js_includes (js ''facts'') MEMORY_HEADER" by code_simp
  have l2: "\<not> js_includes (js ''facts'') MEMORY_FOOTER" by code_simp
  have v1: "\<not> js_includes (js ''Uses a laptop'') MEMORY_HEADER" by code_simp
  have v2: "\<not> js_includes (js ''Uses a laptop'') MEMORY_FOOTER" by code_simp
  have h1: "\<forall>m \<in> set [factsBlock].
      \<not> js_includes (mb_label m) MEMORY_HEADER \<and> \<not> js_includes (mb_label m) MEMORY_FOOTER \<and>
      \<not> js_includes (mb_value m) MEMORY_HEADER \<and> \<not> js_includes (mb_value m) MEMORY_FOOTER"
    using l1 l2 v1 v2 by (simp add: factsBlock_def)
  have h2: "\<not> js_includes ?T MEMORY_HEADER" by code_simp
  have h3: "\<not> js_includes ?T MEMORY_FOOTER" by code_simp
  have h4: "getInputValue (textareaPage (formatMemoriesForInjection [factsBlock] @ ?T)) None =
            formatMemoriesForInjection [factsBlock] @ ?T"
    by (rule textareaPage_content)
  have t: "trim ?T = js ''hello there''" by code_simp
  from strip_splice_roundtrip [OF h1 h2 h3 h4] l1 l2 v1 v2 h2 h3 t show ?thesis
    by (simp add: factsBlock_def)
qed

text \<open>
  Claim C3. When the editor content holds the header but not the footer,
  \<open>addSingleMemory\<close> returns \<open>false\<close> and leaves the whole state as it was: nothing
  is written to the editor and the set of injected ids is unchanged.
\<close>

theorem addOne_malformed_noop:
  assumes "js_includes (getInputValue (doc w) None) MEMORY_HEADER"
      and "\<not> js_includes (getInputValue (doc w) None) MEMORY_FOOTER"
  shows "addSingleMemory w memory = (False, w)"
proof (cases "detectPlatform (doc w)")
  case None
  then show ?thesis by (simp add: addSingleMemory_def)
next
  case (Some p)
  show ?thesis
  proof (cases "getTextarea (doc w) None")
    case None
    with Some show ?thesis by (simp add: addSingleMemory_def getTextarea_detected)
  next
    case (Some el)
    then have "getInputValue (doc w) (Some el) = getInputValue (doc w) None"
      by (rule getInputValue_editor)
    with assms Some \<open>detectPlatform (doc w) = Some p\<close> show ?thesis
      by (simp add: addSingleMemory_def getTextarea_detected js_includes_def Let_def)
  qed
qed

theorem addOne_malformed_noop_witness:
  "js_includes (getInputValue (doc (loaded (textareaPage (MEMORY_HEADER @ js ''\<newline>[a]\<newline>b'')))) None)
     MEMORY_HEADER \<and>
   \<not> js_includes (getInputValue (doc (loaded (textareaPage (MEMORY_HEADER @ js ''\<newline>[a]\<newline>b'')))) None)
     MEMORY_FOOTER \<and>
   addSingleMemory (loaded (textareaPage (MEMORY_HEADER @ js ''\<newline>[a]\<newline>b''))) factsBlock =
     (False, loaded (textareaPage (MEMORY_HEADER @ js ''\<newline>[a]\<newline>b'')))"
proof -
  let ?c = "MEMORY_HEADER @ js ''\<newline>[a]\<newline>b''"
  have c: "getInputValue (doc (loaded (textareaPage ?c))) None = ?c"
    by (simp only: doc_loaded textareaPage_content)
  have h1: "js_includes ?c MEMORY_HEADER" by code_simp
  have h2: "\<not> js_includes ?c MEMORY_FOOTER" by code_simp
  from h1 h2 c addOne_malformed_noop [of "loaded (textareaPage ?c)" factsBlock]
  show ?thesis by simp
qed

text \<open>
  Claim C7. When the editor content holds no header and no id has been injected yet,
  \<open>addSingleMemory\<close> with a block and \<open>injectMemories\<close> with the list of that one
  block return the same result and the same state: the same editor content and the same
  set of injected ids.
\<close>

theorem addOne_refines_spliceIn:
  assumes "\<not> js_includes (getInputValue (doc w) None) MEMORY_HEADER"
      and "injectedMemoryIds w = {}"
  shows "addSingleMemory w memory = injectMemories w [memory]"
proof (cases "detectPlatform (doc w)")
  case None
  then show ?thesis by (simp add: addSingleMemory_def injectMemories_def)
next
  case (Some p)
  show ?thesis
  proof (cases "getTextarea (doc w) None")
    case None
    with Some show ?thesis
      by (simp add: addSingleMemory_def injectMemories_def getTextarea_detected)
  next
    case (Some el)
    then have "getInputValue (doc w) (Some el) = getInputValue (doc w) None"
      by (rule getInputValue_editor)
    with assms Some \<open>detectPlatform (doc w) = Some p\<close> show ?thesis
      by (simp add: addSingleMemory_def getTextarea_detected Let_def)
  qed
qed

theorem addOne_refines_spliceIn_witness:
  "\<not> js_includes (getInputValue (doc (loaded (textareaPage []))) None) MEMORY_HEADER \<and>
   injectedMemoryIds (loaded (textareaPage [])) = {} \<and>
   addSingleMemory (loaded (textareaPage [])) factsBlock =
     injectMemories (loaded (textareaPage [])) [factsBlock]"
proof -
  have c: "getInputValue (doc (loaded (textareaPage []))) None = []"
    by (simp only: doc_loaded textareaPage_content)
  have h1: "\<not> js_includes [] MEMORY_HEADER" by code_simp
  from h1 c injected_loaded [of "textareaPage []"]
    addOne_refines_spliceIn [of "loaded (textareaPage [])" factsBlock]
  show ?thesis by simp
qed




text \<open>
  Claim C5. \<open>getTextarea\<close> and \<open>getSendButton\<close> go through the selector list of
  the platform in order. When they return an element, it is the answer of
  \<open>querySelector\<close> to some selector of the list and it is visible, no earlier
  selector has a visible answer (each throws, matches nothing or matches a hidden
  element), and the loop has evaluated the selectors up to that one and no later one.
  When they return \<open>null\<close>, no selector of the list has a visible answer and all
  have been evaluated. Visible means a width and a height above zero, a display other
  than \<open>none\<close> and a visibility other than \<open>hidden\<close>. Without a platform argument
  the platform is detected from the address, and the result is \<open>null\<close> when there is
  none.
\<close>

theorem locate_first_visible:
  assumes "sels = TEXTAREA_SELECTORS p \<and> found = getTextarea d (Some p) \<or>
           sels = SEND_BUTTON_SELECTORS p \<and> found = getSendButton d (Some p)"
  shows "found = fst (locate d sels) \<and>
         (\<forall>el. found = Some el \<longrightarrow>
            (\<exists>i<length sels.
               querySelector d (sels ! i) = Result (Some el) \<and> isVisible (elems d el) \<and>
               (\<forall>j<i. \<not> (\<exists>e. querySelector d (sels ! j) = Result (Some e) \<and>
                               isVisible (elems d e))) \<and>
               snd (locate d sels) = take (Suc i) sels)) \<and>
         (found = None \<longrightarrow>
            (\<forall>s \<in> set sels. \<not> (\<exists>e. querySelector d s = Result (Some e) \<and>
                                     isVisible (elems d e))) \<and>
            snd (locate d sels) = sels) \<and>
         (\<forall>e. isVisible e \<longleftrightarrow>
            rect_width e > 0 \<and> rect_height e > 0 \<and> style_display e \<noteq> js ''none'' \<and>
            style_visibility e \<noteq> js ''hidden'') \<and>
         getTextarea d None =
           (case detectPlatform d of None \<Rightarrow> None | Some q \<Rightarrow> getTextarea d (Some q)) \<and>
         getSendButton d None =
           (case detectPlatform d of None \<Rightarrow> None | Some q \<Rightarrow> getSendButton d (Some q))"
proof -
  from assms have f: "found = fst (locate d sels)"
    by (auto simp: getTextarea_def getSendButton_def)
  have some: "\<forall>el. found = Some el \<longrightarrow>
            (\<exists>i<length sels.
               querySelector d (sels ! i) = Result (Some el) \<and> isVisible (elems d el) \<and>
               (\<forall>j<i. \<not> (\<exists>e. querySelector d (sels ! j) = Result (Some e) \<and>
                               isVisible (elems d e))) \<and>
               snd (locate d sels) = take (Suc i) sels)"
    using locate_Some [of d sels] unfolding f candidate_Some_iff candidate_None_iff by blast
  have none: "found = None \<longrightarrow>
            (\<forall>s \<in> set sels. \<not> (\<exists>e. querySelector d s = Result (Some e) \<and>
                                     isVisible (elems d e))) \<and>
            snd (locate d sels) = sels"
    using locate_None [of d sels] unfolding f candidate_None_iff by blast
  have vis: "\<forall>e. isVisible e \<longleftrightarrow>
            rect_width e > 0 \<and> rect_height e > 0 \<and> style_display e \<noteq> js ''none'' \<and>
            style_visibility e \<noteq> js ''hidden''"
    by (simp add: isVisible_def)
  have t: "getTextarea d None =
           (case detectPlatform d of None \<Rightarrow> None | Some q \<Rightarrow> getTextarea d (Some q))"
    by (simp add: getTextarea_def split: option.splits)
  have s: "getSendButton d None =
           (case detectPlatform d of None \<Rightarrow> None | Some q \<Rightarrow> getSendButton d (Some q))"
    by (simp add: getSendButton_def split: option.splits)
  from f some none vis t s show ?thesis by (intro conjI)
qed

theorem locate_first_visible_witness:
  \<open>getTextarea fallbackPage (Some chatgpt) = Some 4 \<and>
   snd (locate fallbackPage (TEXTAREA_SELECTORS chatgpt)) =
     [js ''#prompt-textarea'', js ''div[contenteditable="true"][data-id="root"]'',
      js ''div[contenteditable="true"]'']\<close>
proof -
  have "TEXTAREA_SELECTORS chatgpt = TEXTAREA_SELECTORS chatgpt \<and>
        getTextarea fallbackPage (Some chatgpt) = getTextarea fallbackPage (Some chatgpt) \<or>
        TEXTAREA_SELECTORS chatgpt = SEND_BUTTON_SELECTORS chatgpt \<and>
        getTextarea fallbackPage (Some chatgpt) = getSendButton fallbackPage (Some chatgpt)"
    by simp
  from locate_first_visible [OF this]
  have "getTextarea fallbackPage (Some chatgpt) =
        fst (locate fallbackPage (TEXTAREA_SELECTORS chatgpt))" by blast
  then show ?thesis by (simp add: fallbackPage_candidates)
qed

text \<open>
  Claim C9. \<open>captureAndSync\<close> sends at most one payload, and the \<open>recentContext\<close> of
  that payload is \<open>getRecentMessages 2\<close>. With \<open>allSorted\<close> the message elements of the
  page in document order, \<open>getRecentMessages 2\<close> takes the last two of them, drops those
  whose trimmed text is empty and keeps the others in that order, each with its role and
  the first 500 code units of its trimmed text. So the context has at most two
  messages, the most recent last, none longer than 500 code units.
\<close>

theorem capture_recent_context:
  fixes w now
  defines "allSorted \<equiv>
            (case platform_var w of
               None \<Rightarrow> []
             | Some p \<Rightarrow>
                 sort_key (\<lambda>(el, r). position (elems (doc w) el))
                   (map (\<lambda>el. (el, js ''user''))
                        (querySelectorAll (doc w) (fst (MESSAGE_SELECTORS p))) @
                    map (\<lambda>el. (el, js ''assistant''))
                        (querySelectorAll (doc w) (snd (MESSAGE_SELECTORS p)))))"
  shows "(sent (captureAndSync now w) = sent w \<or>
          (\<exists>m. sent (captureAndSync now w) =
                 sent w @ [\<lparr>userMessage = m, recentContext = getRecentMessages w 2,
                            timestamp = now, url = href (doc w)\<rparr>])) \<and>
         sorted (map (\<lambda>(el, r). position (elems (doc w) el)) allSorted) \<and>
         getRecentMessages w 2 =
           map (\<lambda>(el, r). \<lparr>role = r, content = take 500 (trim (textContent (elems (doc w) el)))\<rparr>)
             (filter (\<lambda>(el, r). trim (textContent (elems (doc w) el)) \<noteq> [])
                (drop (length allSorted - 2) allSorted)) \<and>
         length (getRecentMessages w 2) \<le> 2 \<and>
         (\<forall>m \<in> set (getRecentMessages w 2). length (content m) \<le> 500)"
proof -
  have r: "recentElements w 2 = drop (length allSorted - 2) allSorted"
    unfolding allSorted_def by (simp add: recentElements_eq Let_def)
  have s: "sorted (map (\<lambda>(el, r). position (elems (doc w) el)) allSorted)"
    unfolding allSorted_def by (simp split: option.splits)
  have g: "getRecentMessages w 2 =
           map (\<lambda>(el, r). \<lparr>role = r, content = take 500 (trim (textContent (elems (doc w) el)))\<rparr>)
             (filter (\<lambda>(el, r). trim (textContent (elems (doc w) el)) \<noteq> [])
                (drop (length allSorted - 2) allSorted))"
    by (simp only: getRecentMessages_eq r)
  have "length (filter (\<lambda>(el, r). trim (textContent (elems (doc w) el)) \<noteq> [])
                (drop (length allSorted - 2) allSorted)) \<le> length (drop (length allSorted - 2) allSorted)"
    by (rule length_filter_le)
  then have l: "length (getRecentMessages w 2) \<le> 2" by (simp add: g)
  have c: "\<forall>m \<in> set (getRecentMessages w 2). length (content m) \<le> 500"
    by (auto simp: g)
  from captureAndSync_sent [of now w] s g l c show ?thesis by (intro conjI)
qed

theorem capture_recent_context_witness:
  "length (getRecentMessages (loaded chatPage) 2) \<le> 2 \<and>
   getRecentMessages (loaded chatPage) 2 =
     [\<lparr>role = js ''assistant'', content = replicate 500 0x61\<rparr>,
      \<lparr>role = js ''user'', content = js ''second question''\<rparr>] \<and>
   sent (captureAndSync 1700000000000 (loaded chatPage)) =
     [\<lparr>userMessage = js ''third question'',
       recentContext = [\<lparr>role = js ''assistant'', content = replicate 500 0x61\<rparr>,
                        \<lparr>role = js ''user'', content = js ''second question''\<rparr>],
       timestamp = 1700000000000, url = js ''https://chatgpt.com/''\<rparr>]"
proof -
  from capture_recent_context [where w = "loaded chatPage" and now = 1700000000000]
  have "length (getRecentMessages (loaded chatPage) 2) \<le> 2" by blast
  moreover have "sent (captureAndSync 1700000000000 (loaded chatPage)) =
     [\<lparr>userMessage = js ''third question'',
       recentContext = [\<lparr>role = js ''assistant'', content = replicate 500 0x61\<rparr>,
                        \<lparr>role = js ''user'', content = js ''second question''\<rparr>],
       timestamp = 1700000000000, url = js ''https://chatgpt.com/''\<rparr>]"
    by code_simp
  ultimately show ?thesis using chatPage_recent by simp
qed




text \<open>
  Claim C4, as amended. When the icon button or the floating container is in the
  document, \<open>mountButtonOnEditor\<close> returns with the whole state unchanged. Two calls in
  succession leave the document that the first call left. From a state that satisfies
  the invariant, the document then holds exactly one control when the first call left
  one (it was there already, or a strategy placed it) and none when every strategy
  failed; in that case a retry is scheduled 1000 ms later.
\<close>

theorem mount_idempotent:
  "(controlPresent (doc w) \<longrightarrow> mountButtonOnEditor w = w) \<and>
   doc (mountButtonOnEditor (mountButtonOnEditor w)) = doc (mountButtonOnEditor w) \<and>
   (tracked w \<longrightarrow>
      tracked (mountButtonOnEditor w) \<and>
      length (overlay (doc (mountButtonOnEditor (mountButtonOnEditor w)))) =
        (if controlPresent (doc (mountButtonOnEditor w)) then 1 else 0)) \<and>
   (\<not> controlPresent (doc (mountButtonOnEditor w)) \<longrightarrow>
      timeouts (mountButtonOnEditor w) = timeouts w @ [(1000, MountTask)])"
  using mount_present [of w] mount_twice_doc [of w] tracked_mount [of w] mount_count [of w]
    mount_retry [of w]
  by simp

theorem mount_idempotent_witness:
  "tracked (loaded composerPage) \<and>
   controlPresent (doc (mountButtonOnEditor (loaded composerPage))) \<and>
   length (overlay (doc (mountButtonOnEditor (mountButtonOnEditor (loaded composerPage))))) = 1"
proof -
  have t: "tracked (loaded composerPage)"
    by (simp add: tracked_def loaded_def composerPage_def textareaPage_def)
  have c: "controlPresent (doc (mountButtonOnEditor (loaded composerPage)))"
    by (simp add: controlPresent_iff composer_mounted)
  from t c mount_idempotent [of "loaded composerPage"] show ?thesis
    by (simp add: composer_mounted)
qed

text \<open>
  On the example page, which has no plus button and no \<open>#composer-submit-button\<close>,
  both strategies of ChatGPT fail: two calls leave no control in the document.
\<close>

theorem mount_twice_none_counterexample:
  "tracked (loaded (textareaPage [])) \<and>
   length (overlay (doc (mountButtonOnEditor (mountButtonOnEditor (loaded (textareaPage [])))))) = 0"
proof -
  have "tracked (loaded (textareaPage []))"
    by (simp add: tracked_def loaded_def textareaPage_def)
  moreover have "overlay (doc (mountButtonOnEditor (mountButtonOnEditor (loaded (textareaPage []))))) = []"
    by code_simp
  ultimately show ?thesis by simp
qed

text \<open>
  Claim C8, as amended. When the address differs from the one last seen, in a state that
  satisfies the invariant, one run of the callback of the URL monitor leaves no control
  in the document and no tracked button, has run the \<open>_cleanup\<close> closure of the tracked
  root (no window listener of that root is left), has emptied the set of injected ids
  and has recorded the new address. It does not mount: it schedules, 500 ms later, the
  task that calls \<open>mountButtonOnEditor\<close> and then \<open>addSendListeners\<close>. After that task
  the control is in the document, unless every strategy failed; then a retry is
  scheduled 1000 ms later.
\<close>

theorem navigation_resets:
  assumes "href (doc w) \<noteq> lastUrl w" and "tracked w"
  shows "\<not> controlPresent (doc (urlMonitorTick w)) \<and>
         buttonHost (urlMonitorTick w) = None \<and>
         (\<forall>x. buttonHost w = Some x \<and> has_cleanup x \<longrightarrow>
              (\<forall>(ev, owner) \<in> set (windowListeners (doc (urlMonitorTick w))). owner \<noteq> wid x)) \<and>
         injectedMemoryIds (urlMonitorTick w) = {} \<and>
         lastUrl (urlMonitorTick w) = href (doc w) \<and>
         timeouts (urlMonitorTick w) = timeouts w @ [(500, RemountTask)] \<and>
         runTask now RemountTask (urlMonitorTick w) =
           addSendListeners (mountButtonOnEditor (urlMonitorTick w)) \<and>
         (controlPresent (doc (runTask now RemountTask (urlMonitorTick w))) \<or>
          timeouts (runTask now RemountTask (urlMonitorTick w)) =
            timeouts w @ [(500, RemountTask), (1000, MountTask)])"
proof -
  let ?w0 = "w\<lparr>lastUrl := href (doc w)\<rparr>"
  have eq: "urlMonitorTick w =
      (resetInjectionState (removeUI ?w0))\<lparr>timeouts := timeouts w @ [(500, RemountTask)]\<rparr>"
    using assms(1) by (rule tick_changed)
  have t0: "tracked ?w0" using assms(2) by (simp add: tracked_def split: list.splits)
  have o: "overlay (doc (urlMonitorTick w)) = []"
    using removeUI_overlay_tracked [OF t0] by (simp add: eq resetInjectionState_def)
  then have a: "\<not> controlPresent (doc (urlMonitorTick w))" by (simp add: controlPresent_iff)
  have b: "buttonHost (urlMonitorTick w) = None"
    using removeUI_buttonHost [of ?w0] by (simp add: eq resetInjectionState_def)
  have c: "\<forall>x. buttonHost w = Some x \<and> has_cleanup x \<longrightarrow>
              (\<forall>(ev, owner) \<in> set (windowListeners (doc (urlMonitorTick w))). owner \<noteq> wid x)"
  proof (intro allI impI)
    fix x assume "buttonHost w = Some x \<and> has_cleanup x"
    then have "buttonHost ?w0 = Some x" and "has_cleanup x" by simp_all
    from removeUI_discharges [OF this]
    show "\<forall>(ev, owner) \<in> set (windowListeners (doc (urlMonitorTick w))). owner \<noteq> wid x"
      by (simp add: eq resetInjectionState_def)
  qed
  have d: "injectedMemoryIds (urlMonitorTick w) = {}" by (simp add: eq resetInjectionState_def)
  have e: "lastUrl (urlMonitorTick w) = href (doc w)"
    using removeUI_frame [of ?w0] by (simp add: eq resetInjectionState_def)
  have f: "timeouts (urlMonitorTick w) = timeouts w @ [(500, RemountTask)]" by (simp add: eq)
  have g: "runTask now RemountTask (urlMonitorTick w) =
           addSendListeners (mountButtonOnEditor (urlMonitorTick w))" by simp
  have h: "controlPresent (doc (runTask now RemountTask (urlMonitorTick w))) \<or>
          timeouts (runTask now RemountTask (urlMonitorTick w)) =
            timeouts w @ [(500, RemountTask), (1000, MountTask)]"
  proof (cases "controlPresent (doc (mountButtonOnEditor (urlMonitorTick w)))")
    case True
    then show ?thesis using addSendListeners_frame by (simp add: controlPresent_iff)
  next
    case False
    from mount_retry [OF False] f show ?thesis using addSendListeners_frame by simp
  qed
  from a b c d e f g h show ?thesis by (intro conjI)
qed

theorem navigation_resets_witness:
  "href (doc (navigated (mountButtonOnEditor (loaded composerPage)))) \<noteq>
     lastUrl (navigated (mountButtonOnEditor (loaded composerPage))) \<and>
   tracked (navigated (mountButtonOnEditor (loaded composerPage))) \<and>
   controlPresent (doc (navigated (mountButtonOnEditor (loaded composerPage)))) \<and>
   \<not> controlPresent (doc (urlMonitorTick (navigated (mountButtonOnEditor (loaded composerPage))))) \<and>
   timeouts (urlMonitorTick (navigated (mountButtonOnEditor (loaded composerPage)))) =
     [(500, RemountTask)] \<and>
   controlPresent (doc (runTask 0 RemountTask
      (urlMonitorTick (navigated (mountButtonOnEditor (loaded composerPage))))))"
proof -
  let ?w = "navigated (mountButtonOnEditor (loaded composerPage))"
  have h1: "href (doc ?w) \<noteq> lastUrl ?w" by (rule navigated_composer(1))
  have h2: "tracked ?w" by (simp add: tracked_def navigated_composer)
  have p: "controlPresent (doc ?w)" by (simp add: controlPresent_iff navigated_composer)
  have t: "timeouts ?w = []" by code_simp
  have q: "controlPresent (doc (runTask 0 RemountTask (urlMonitorTick ?w)))"
    by (simp only: controlPresent_iff remounted_after_delay) simp
  from navigation_resets [OF h1 h2, of 0] h1 h2 p t q show ?thesis by simp
qed

text \<open>
  Two runs against the claim as it stands. On the example page, where no strategy
  applies, the control is still absent after the delayed task. On the page with the send
  button, where the button watcher is running, the check of the watcher, which the
  removal of the root triggers, mounts the control again without any delay.
\<close>

theorem navigation_remount_counterexample:
  "\<not> controlPresent (doc (runTask 0 RemountTask
        (urlMonitorTick (navigated (loaded (textareaPage [])))))) \<and>
   mutationObserver (navigated (mountButtonOnEditor (loaded composerPage))) \<and>
   controlPresent (doc (buttonWatcherCheck
        (urlMonitorTick (navigated (mountButtonOnEditor (loaded composerPage))))))"
proof -
  have "overlay (doc (runTask 0 RemountTask
        (urlMonitorTick (navigated (loaded (textareaPage [])))))) = []"
    by code_simp
  moreover have "overlay (doc (buttonWatcherCheck
        (urlMonitorTick (navigated (mountButtonOnEditor (loaded composerPage)))))) =
      [\<lparr>wid = 1, root_id = [], has_cleanup = False, placed = InsertBefore 2\<rparr>]"
    by code_simp
  ultimately show ?thesis by (simp add: controlPresent_iff navigated_composer(4))
qed

end
